theory Spec2Isabelle
  imports Main "HOL-Library.Sublist"
begin

section \<open>Strings and errors\<close>

text \<open>
  A Python string is the list of its characters, a character being its Unicode code point,
  so \<open>len(s)\<close> is \<^term>\<open>length s\<close>. Exceptions are values of \<open>py_error\<close>; a function
  that can raise returns \<open>py_error + 'a\<close> with \<open>Inl\<close> for the exception.
\<close>

datatype py_error = IndexError | ValueError

type_synonym py_char = nat

type_synonym py_str = "py_char list"

text \<open>A string literal of the source; the literals have ASCII characters only.\<close>

definition ascii :: "string \<Rightarrow> py_str" where
  "ascii s = map of_char s"

text \<open>The space character.\<close>

abbreviation space :: py_char where
  "space \<equiv> 32"

text \<open>\<open>word in option\<close> on two Python strings: substring containment.\<close>

primrec str_in :: "py_str \<Rightarrow> py_str \<Rightarrow> bool" where
  "str_in w [] = (w = [])"
| "str_in w (c # cs) = (prefix w (c # cs) \<or> str_in w cs)"

text \<open>\<open>s.split(sep)\<close> for a one-character separator: every separator cuts, empty pieces are kept.\<close>

fun split :: "py_char \<Rightarrow> py_str \<Rightarrow> py_str list" where
  "split sep [] = [[]]"
| "split sep (c # cs) =
     (if c = sep then [] # split sep cs
      else (case split sep cs of [] \<Rightarrow> [[c]] | p # ps \<Rightarrow> (c # p) # ps))"

text \<open>\<open>sep.join(parts)\<close>.\<close>

fun join :: "py_str \<Rightarrow> py_str list \<Rightarrow> py_str" where
  "join sep [] = []"
| "join sep [p] = p"
| "join sep (p # q # ps) = p @ sep @ join sep (q # ps)"

text \<open>
  The builtins \<open>int\<close>, \<open>float\<close> and \<open>str.lower\<close> are not part of the program: the
  functions that call them take them as parameters.
\<close>

section \<open>The data model (lib/school_data.py, utils/typing.py)\<close>

subsection \<open>Classification enums\<close>

datatype LocaleCodes =
  LARGE_CITY | MIDSIZE_CITY | URBAN_FRINGE_LARGE_CITY | URBAN_FRINGE_MIDSIZE_CITY
| LARGE_TOWN | SMALL_TOWN | RURAL_OUTSIDE_CBSA | RURAL_INSIDE_CBSA

datatype UrbanLocaleCodes =
  CITY_LARGE | CITY_MIDSIZE | CITY_SMALL | SUBURB_LARGE | SUBURB_MIDSIZE | SUBURB_SMALL
| TOWN_FRINGE | TOWN_DISTANT | TIWN_REMOTE | RURAL_FRINGE | RURAL_DISTANT | RURAL_REMOTE

datatype SchoolStatusCodes =
  OPERATIONAL | CLOSED | OPENED | OPERATIONAL_NEWLY_LISTED | NEW_AGENCY | TEMP_CLOSED
| WILL_BE_OPERATIONAL | REOPENED

text \<open>The members of each enum by value, and the \<open>name\<close> attribute of a member.\<close>

definition LocaleCodes_members :: "(int \<times> LocaleCodes) list" where
  "LocaleCodes_members =
     [(1, LARGE_CITY), (2, MIDSIZE_CITY), (3, URBAN_FRINGE_LARGE_CITY),
      (4, URBAN_FRINGE_MIDSIZE_CITY), (5, LARGE_TOWN), (6, SMALL_TOWN),
      (7, RURAL_OUTSIDE_CBSA), (8, RURAL_INSIDE_CBSA)]"

definition UrbanLocaleCodes_members :: "(int \<times> UrbanLocaleCodes) list" where
  "UrbanLocaleCodes_members =
     [(11, CITY_LARGE), (12, CITY_MIDSIZE), (13, CITY_SMALL), (21, SUBURB_LARGE),
      (22, SUBURB_MIDSIZE), (23, SUBURB_SMALL), (31, TOWN_FRINGE), (32, TOWN_DISTANT),
      (33, TIWN_REMOTE), (41, RURAL_FRINGE), (42, RURAL_DISTANT), (43, RURAL_REMOTE)]"

definition SchoolStatusCodes_members :: "(int \<times> SchoolStatusCodes) list" where
  "SchoolStatusCodes_members =
     [(1, OPERATIONAL), (2, CLOSED), (3, OPENED), (4, OPERATIONAL_NEWLY_LISTED),
      (5, NEW_AGENCY), (6, TEMP_CLOSED), (7, WILL_BE_OPERATIONAL), (8, REOPENED)]"

fun LocaleCodes_name :: "LocaleCodes \<Rightarrow> py_str" where
  "LocaleCodes_name LARGE_CITY = ascii ''LARGE_CITY''"
| "LocaleCodes_name MIDSIZE_CITY = ascii ''MIDSIZE_CITY''"
| "LocaleCodes_name URBAN_FRINGE_LARGE_CITY = ascii ''URBAN_FRINGE_LARGE_CITY''"
| "LocaleCodes_name URBAN_FRINGE_MIDSIZE_CITY = ascii ''URBAN_FRINGE_MIDSIZE_CITY''"
| "LocaleCodes_name LARGE_TOWN = ascii ''LARGE_TOWN''"
| "LocaleCodes_name SMALL_TOWN = ascii ''SMALL_TOWN''"
| "LocaleCodes_name RURAL_OUTSIDE_CBSA = ascii ''RURAL_OUTSIDE_CBSA''"
| "LocaleCodes_name RURAL_INSIDE_CBSA = ascii ''RURAL_INSIDE_CBSA''"

fun UrbanLocaleCodes_name :: "UrbanLocaleCodes \<Rightarrow> py_str" where
  "UrbanLocaleCodes_name CITY_LARGE = ascii ''CITY_LARGE''"
| "UrbanLocaleCodes_name CITY_MIDSIZE = ascii ''CITY_MIDSIZE''"
| "UrbanLocaleCodes_name CITY_SMALL = ascii ''CITY_SMALL''"
| "UrbanLocaleCodes_name SUBURB_LARGE = ascii ''SUBURB_LARGE''"
| "UrbanLocaleCodes_name SUBURB_MIDSIZE = ascii ''SUBURB_MIDSIZE''"
| "UrbanLocaleCodes_name SUBURB_SMALL = ascii ''SUBURB_SMALL''"
| "UrbanLocaleCodes_name TOWN_FRINGE = ascii ''TOWN_FRINGE''"
| "UrbanLocaleCodes_name TOWN_DISTANT = ascii ''TOWN_DISTANT''"
| "UrbanLocaleCodes_name TIWN_REMOTE = ascii ''TIWN_REMOTE''"
| "UrbanLocaleCodes_name RURAL_FRINGE = ascii ''RURAL_FRINGE''"
| "UrbanLocaleCodes_name RURAL_DISTANT = ascii ''RURAL_DISTANT''"
| "UrbanLocaleCodes_name RURAL_REMOTE = ascii ''RURAL_REMOTE''"

fun SchoolStatusCodes_name :: "SchoolStatusCodes \<Rightarrow> py_str" where
  "SchoolStatusCodes_name OPERATIONAL = ascii ''OPERATIONAL''"
| "SchoolStatusCodes_name CLOSED = ascii ''CLOSED''"
| "SchoolStatusCodes_name OPENED = ascii ''OPENED''"
| "SchoolStatusCodes_name OPERATIONAL_NEWLY_LISTED = ascii ''OPERATIONAL_NEWLY_LISTED''"
| "SchoolStatusCodes_name NEW_AGENCY = ascii ''NEW_AGENCY''"
| "SchoolStatusCodes_name TEMP_CLOSED = ascii ''TEMP_CLOSED''"
| "SchoolStatusCodes_name WILL_BE_OPERATIONAL = ascii ''WILL_BE_OPERATIONAL''"
| "SchoolStatusCodes_name REOPENED = ascii ''REOPENED''"

text \<open>
  \<open>utils.typing.convert_type\<close>. The target type (the builtin \<open>int\<close> or \<open>float\<close>) is a
  parameter: it gives \<open>None\<close> where the builtin raises ValueError. The result is the
  converted value (\<open>Inr\<close>) or the value it was given, a string (\<open>Inl\<close>).
\<close>

definition convert_type :: "(py_str \<Rightarrow> 'a option) \<Rightarrow> py_str \<Rightarrow> bool \<Rightarrow> py_error + (py_str + 'a)" where
  "convert_type target_type value raise_on_error =
     (case target_type value of
        Some v \<Rightarrow> Inr (Inr v)
      | None \<Rightarrow> if raise_on_error then Inl ValueError else Inr (Inl value))"

text \<open>
  \<open>SearchableEnum.find_val\<close> on the members of an enum: \<open>cls(val)\<close> finds the member with
  that value, and the ValueError for any other value (a string among them) gives \<open>None\<close>.
\<close>

definition find_val :: "(int \<times> 'e) list \<Rightarrow> py_str + int \<Rightarrow> 'e option" where
  "find_val members val = (case val of Inl raw \<Rightarrow> None | Inr n \<Rightarrow> map_of members n)"

subsection \<open>Dictionaries and class-level state\<close>

text \<open>
  A dict is an association list in insertion order with at most the first entry of a key
  read: \<open>k in d\<close> is \<^term>\<open>map_of d k \<noteq> None\<close>, and \<open>d[k] = v\<close> is \<open>dict_set\<close>.
\<close>

type_synonym counts = "(py_str \<times> int) list"

fun dict_set :: "('k \<times> 'v) list \<Rightarrow> 'k \<Rightarrow> 'v \<Rightarrow> ('k \<times> 'v) list" where
  "dict_set [] k v = [(k, v)]"
| "dict_set (p # ps) k v = (if fst p = k then (fst p, v) # ps else p # dict_set ps k v)"

text \<open>
  The counting idiom of the source, \<open>if k not in d: d[k] = 0\<close> followed by \<open>d[k] += 1\<close>.
  The key is present when it is read, so no KeyError can arise.
\<close>

definition count_up :: "counts \<Rightarrow> py_str \<Rightarrow> counts" where
  "count_up d k =
     (let d1 = (if map_of d k = None then dict_set d k 0 else d)
      in dict_set d1 k (the (map_of d1 k) + 1))"

text \<open>
  Objects. A City or Agency object is created only by its constructor, which appends it
  to the class's \<open>class_obj_list\<close>; nothing removes or changes it afterwards. The identity
  of an object is modelled by \<open>oid\<close>, the number of objects of its class created before it.
\<close>

record city_obj =
  oid :: nat
  city :: py_str
  state :: py_str

record agency_obj =
  agency_oid :: nat
  agency_id :: py_str
  agency_name :: py_str

record 'f school =
  school_id :: py_str
  school_name :: py_str
  school_agency :: agency_obj
  school_city :: city_obj
  lat :: "py_str + 'f"
  long :: "py_str + 'f"
  locale_code :: "LocaleCodes option"
  urban_code :: "UrbanLocaleCodes option"
  status_code :: "SchoolStatusCodes option"

text \<open>The class attributes that the program mutates.\<close>

record class_state =
  City_class_obj_list :: "city_obj list"
  City_counts_city :: counts
  City_counts_state :: counts
  Agency_class_obj_list :: "agency_obj list"
  School_locale_code_count :: counts
  School_urban_code_count :: counts
  School_status_code_count :: counts

text \<open>The state when the module has been imported: every list and dict is empty.\<close>

definition initial_state :: class_state where
  "initial_state =
     \<lparr>City_class_obj_list = [], City_counts_city = [], City_counts_state = [],
      Agency_class_obj_list = [], School_locale_code_count = [],
      School_urban_code_count = [], School_status_code_count = []\<rparr>"

subsection \<open>Search, CountsMetadata\<close>

text \<open>
  \<open>Search.search\<close>: an object matches unless a field of \<open>search_fields\<close> is among the
  keyword arguments and its test fails.
\<close>

definition search :: "(py_str \<times> ('obj \<Rightarrow> py_str \<Rightarrow> bool)) list \<Rightarrow> 'obj list \<Rightarrow> (py_str \<times> py_str) list \<Rightarrow> 'obj list" where
  "search search_fields class_obj_list kwargs =
     filter (\<lambda>obj. list_all (\<lambda>(field, test).
                (case map_of kwargs field of None \<Rightarrow> True | Some val \<Rightarrow> test obj val))
              search_fields)
       class_obj_list"

text \<open>
  The dicts that a \<open>_counts_lookup\<close> holds are the class attributes themselves, not copies:
  an entry is modelled as a reference, read in a state by \<open>deref\<close>.
\<close>

datatype counts_ref =
  Counts_city | Counts_state | Locale_code_count | Urban_code_count | Status_code_count

fun deref :: "class_state \<Rightarrow> counts_ref \<Rightarrow> counts" where
  "deref st Counts_city = City_counts_city st"
| "deref st Counts_state = City_counts_state st"
| "deref st Locale_code_count = School_locale_code_count st"
| "deref st Urban_code_count = School_urban_code_count st"
| "deref st Status_code_count = School_status_code_count st"

definition City_counts_lookup :: "(py_str \<times> counts_ref) list" where
  "City_counts_lookup = [(ascii ''city'', Counts_city), (ascii ''state'', Counts_state)]"

definition School_counts_lookup :: "(py_str \<times> counts_ref) list" where
  "School_counts_lookup =
     [(ascii ''locale'', Locale_code_count), (ascii ''urban'', Urban_code_count),
      (ascii ''status'', Status_code_count)]"

text \<open>
  Modelled from the spec: \<open>utils.logger.log\<close>, whose module is not among the sources. It is
  a sink of diagnostics that does not raise; a call is modelled by the record it emits.
\<close>

datatype log_level = WARNING | ERROR

type_synonym log_record = "log_level \<times> py_str"

text \<open>What \<open>get_count_metadata\<close> returns: one dict, or a list of dicts.\<close>

datatype metadata = Dict counts_ref | List "counts_ref list"

text \<open>
  \<open>CountsMetadata.get_count_metadata\<close>, for a class with the given \<open>_counts_lookup\<close>;
  \<open>name\<close> is \<open>None\<close> when the argument is left out. The character 96 is the
  backquote of the message.
\<close>

definition get_count_metadata :: "(py_str \<times> counts_ref) list \<Rightarrow> py_str option \<Rightarrow> metadata \<times> log_record list" where
  "get_count_metadata counts_lookup name =
     (case name of
        None \<Rightarrow> (List (map snd counts_lookup), [])
      | Some n \<Rightarrow>
          (case map_of counts_lookup n of
             Some d \<Rightarrow> (Dict d, [])
           | None \<Rightarrow>
               (List [],
                [(WARNING,
                  [96] @ n @ [96] @
                  ascii '' was not found to be a valid code name in School metadata. Options are: '' @
                  join (ascii '' '') (map fst counts_lookup))])))"

text \<open>\<open>CountsMetadata.increment_count_metadata\<close>; \<open>name_of\<close> is the enum's \<open>name\<close>.\<close>

definition increment_count_metadata :: "('e \<Rightarrow> py_str) \<Rightarrow> 'e option \<Rightarrow> counts \<Rightarrow> counts" where
  "increment_count_metadata name_of class_code code_count_dict =
     (case class_code of
        None \<Rightarrow> code_count_dict
      | Some code \<Rightarrow> count_up code_count_dict (name_of code))"

subsection \<open>City, Agency, School\<close>

definition City_search_fields :: "(py_str \<times> (city_obj \<Rightarrow> py_str \<Rightarrow> bool)) list" where
  "City_search_fields =
     [(ascii ''city'', \<lambda>obj val. city obj = val), (ascii ''state'', \<lambda>obj val. state obj = val)]"

definition Agency_search_fields :: "(py_str \<times> (agency_obj \<Rightarrow> py_str \<Rightarrow> bool)) list" where
  "Agency_search_fields =
     [(ascii ''agency_id'', \<lambda>obj val. agency_id obj = val),
      (ascii ''agency_name'', \<lambda>obj val. agency_name obj = val)]"

text \<open>\<open>City.__init__\<close> and \<open>Agency.__init__\<close>: the new object registers itself.\<close>

definition City_init :: "class_state \<Rightarrow> py_str \<Rightarrow> py_str \<Rightarrow> city_obj \<times> class_state" where
  "City_init st city_arg state_arg =
     (let self = \<lparr>oid = length (City_class_obj_list st), city = city_arg, state = state_arg\<rparr>
      in (self, st\<lparr>City_class_obj_list := City_class_obj_list st @ [self]\<rparr>))"

definition Agency_init :: "class_state \<Rightarrow> py_str \<Rightarrow> py_str \<Rightarrow> agency_obj \<times> class_state" where
  "Agency_init st aid name_arg =
     (let self = \<lparr>agency_oid = length (Agency_class_obj_list st),
                  agency_id = aid, agency_name = name_arg\<rparr>
      in (self, st\<lparr>Agency_class_obj_list := Agency_class_obj_list st @ [self]\<rparr>))"

text \<open>\<open>City.get_or_create\<close>. The ValueError is raised before anything is read or written.\<close>

definition City_get_or_create :: "class_state \<Rightarrow> py_str \<Rightarrow> py_str \<Rightarrow> (py_error + city_obj) \<times> class_state" where
  "City_get_or_create st city_arg state_arg =
     (if length state_arg \<noteq> 2 then (Inl ValueError, st)
      else
        let match = search City_search_fields (City_class_obj_list st)
                      [(ascii ''city'', city_arg), (ascii ''state'', state_arg)];
            st1 = st\<lparr>City_counts_city := count_up (City_counts_city st) city_arg\<rparr>;
            st2 = st1\<lparr>City_counts_state := count_up (City_counts_state st1) state_arg\<rparr>
        in if length match = 0 then
             (case City_init st2 city_arg state_arg of (self, st3) \<Rightarrow> (Inr self, st3))
           else (Inr (hd match), st2))"

text \<open>\<open>Agency.get_or_create\<close>: no check, no counter, no exception.\<close>

definition Agency_get_or_create :: "class_state \<Rightarrow> py_str \<Rightarrow> py_str \<Rightarrow> agency_obj \<times> class_state" where
  "Agency_get_or_create st agency_id_arg agency_name_arg =
     (let match = search Agency_search_fields (Agency_class_obj_list st)
                    [(ascii ''agency_id'', agency_id_arg), (ascii ''agency_name'', agency_name_arg)]
      in if length match = 0 then Agency_init st agency_id_arg agency_name_arg
         else (hd match, st))"

text \<open>A field of a record of the input file, as the csv reader gives it.\<close>

type_synonym field = py_str

text \<open>
  \<open>School.__init__\<close>, with the builtins \<open>int\<close> and \<open>float\<close> as parameters. An exception
  leaves the state as it was when it was raised.
\<close>

definition School_init ::
  "(field \<Rightarrow> int option) \<Rightarrow> (field \<Rightarrow> 'f option) \<Rightarrow> class_state \<Rightarrow>
   field \<Rightarrow> field \<Rightarrow> field \<Rightarrow> field \<Rightarrow> field \<Rightarrow> field \<Rightarrow> field \<Rightarrow> field \<Rightarrow>
   field \<Rightarrow> field \<Rightarrow> field \<Rightarrow> (py_error + 'f school) \<times> class_state" where
  "School_init py_int py_float st sid agency_id_arg agency_name_arg name_arg city_arg
       state_arg lat_arg long_arg locale_arg urban_arg status_arg =
     (case Agency_get_or_create st agency_id_arg agency_name_arg of (ag, st1) \<Rightarrow>
      (case City_get_or_create st1 city_arg state_arg of
         (Inl e, st2) \<Rightarrow> (Inl e, st2)
       | (Inr ci, st2) \<Rightarrow>
      (case convert_type py_float lat_arg False of Inl e \<Rightarrow> (Inl e, st2) | Inr lat_v \<Rightarrow>
      (case convert_type py_float long_arg False of Inl e \<Rightarrow> (Inl e, st2) | Inr long_v \<Rightarrow>
      (case convert_type py_int locale_arg False of Inl e \<Rightarrow> (Inl e, st2) | Inr locale_v \<Rightarrow>
         let lc = find_val LocaleCodes_members locale_v;
             st3 = st2\<lparr>School_locale_code_count :=
                     increment_count_metadata LocaleCodes_name lc (School_locale_code_count st2)\<rparr>
         in
      (case convert_type py_int urban_arg False of Inl e \<Rightarrow> (Inl e, st3) | Inr urban_v \<Rightarrow>
         let uc = find_val UrbanLocaleCodes_members urban_v;
             st4 = st3\<lparr>School_urban_code_count :=
                     increment_count_metadata UrbanLocaleCodes_name uc (School_urban_code_count st3)\<rparr>
         in
      (case convert_type py_int status_arg False of Inl e \<Rightarrow> (Inl e, st4) | Inr status_v \<Rightarrow>
         let sc = find_val SchoolStatusCodes_members status_v;
             st5 = st4\<lparr>School_status_code_count :=
                     increment_count_metadata SchoolStatusCodes_name sc (School_status_code_count st4)\<rparr>
         in (Inr \<lparr>school_id = sid, school_name = name_arg, school_agency = ag,
                   school_city = ci, lat = lat_v, long = long_v, locale_code = lc,
                   urban_code = uc, status_code = sc\<rparr>, st5))))))))"

subsection \<open>SchoolDataSet\<close>

text \<open>
  \<open>SchoolDataSet._read_line\<close> on a record that the csv reader has produced: a record
  that does not have 11 fields is skipped, otherwise a School is built and appended to
  \<open>self.schools\<close>. An exception of the constructor leaves \<open>self.schools\<close> as it was.
\<close>

definition read_line ::
  "(py_str \<Rightarrow> int option) \<Rightarrow> (py_str \<Rightarrow> 'f option) \<Rightarrow> class_state \<times> 'f school list \<Rightarrow>
   py_str list \<Rightarrow> py_error option \<times> class_state \<times> 'f school list" where
  "read_line py_int py_float ds line =
     (case ds of (st, schools) \<Rightarrow>
        if length line \<noteq> 11 then (None, st, schools)
        else
          (case School_init py_int py_float st (line ! 0) (line ! 1) (line ! 2) (line ! 3)
                  (line ! 4) (line ! 5) (line ! 6) (line ! 7) (line ! 8) (line ! 9) (line ! 10) of
             (Inl e, st') \<Rightarrow> (Some e, st', schools)
           | (Inr new_school, st') \<Rightarrow> (None, st', schools @ [new_school])))"

text \<open>
  The loop of \<open>SchoolDataSet.load_csv\<close> over the records of the file: whatever
  \<open>_read_line\<close> raises is logged and the loop goes on with the next record.
\<close>

fun load_csv ::
  "(py_str \<Rightarrow> int option) \<Rightarrow> (py_str \<Rightarrow> 'f option) \<Rightarrow> class_state \<times> 'f school list \<Rightarrow>
   py_str list list \<Rightarrow> class_state \<times> 'f school list" where
  "load_csv py_int py_float ds [] = ds"
| "load_csv py_int py_float ds (line # lines) =
     (case read_line py_int py_float ds line of
        (raised, ds') \<Rightarrow> load_csv py_int py_float ds' lines)"

section \<open>The search engine (lib/school_search.py)\<close>

text \<open>
  \<open>SchoolSearchEngine._build_cache\<close> on the list of schools; \<open>lower\<close> is the builtin
  \<open>str.lower\<close>.
\<close>

definition build_cache :: "(py_str \<Rightarrow> py_str) \<Rightarrow> 'f school list \<Rightarrow> py_str list" where
  "build_cache lower dataset =
     map (\<lambda>i. join (ascii '' '') [lower (school_name i), lower (city (school_city i)),
                           lower (state (school_city i))]) dataset"

text \<open>
  The backfill loop of \<open>_match_words\<close> (the \<open>while len(results) < 3\<close> loop).
  \<open>remaining_options.pop()\<close> removes and returns the last element and raises IndexError on
  an empty list. The loop pops once for the membership test and, when the test succeeds,
  pops a second time for the element it appends.
\<close>

function backfill :: "py_str list \<Rightarrow> py_str list \<Rightarrow> py_error + py_str list" where
  "backfill results remaining_options =
     (if length results < 3 then
        (if remaining_options = [] then Inl IndexError
         else
           let next_option = last remaining_options;
               remaining1 = butlast remaining_options
           in if next_option \<notin> set results then
                (if remaining1 = [] then Inl IndexError
                 else backfill (results @ [last remaining1]) (butlast remaining1))
              else backfill results remaining1)
      else Inr results)"
  by pat_completeness auto
termination
  by (relation "measure (\<lambda>(results, remaining_options). length remaining_options)") auto

text \<open>\<open>options or self._whole_terms\<close>: \<open>None\<close> and the empty list are both falsy.\<close>

definition options_or :: "py_str list option \<Rightarrow> py_str list \<Rightarrow> py_str list" where
  "options_or options whole_terms =
     (case options of None \<Rightarrow> whole_terms | Some [] \<Rightarrow> whole_terms | Some os \<Rightarrow> os)"

text \<open>
  How the block \<open>if len(remaining_options) == 0: ...\<close> of \<open>_match_words\<close> ends: it raises,
  it returns, or control falls through with a value for \<open>remaining_options\<close>.
\<close>

datatype flow = Raise py_error | Return "py_str list" | Continue "py_str list"

text \<open>
  \<open>SchoolSearchEngine._match_words\<close>. The first argument is \<open>self._whole_terms\<close>. For a
  non-empty word list every list the function returns is a new list, and the lists it
  mutates (\<open>remaining_options\<close>, \<open>results\<close>) are local, so the cache is never changed
  and lists are values here.
\<close>

function match_words :: "py_str list \<Rightarrow> py_str list \<Rightarrow> py_str list option \<Rightarrow> py_error + py_str list" where
  "match_words whole_terms words options =
     (let options1 = options_or options whole_terms in
      if length words = 0 then Inr options1
      else
        let remaining0 = filter (\<lambda>option. str_in (hd words) option) options1 in
        (case (if length remaining0 = 0 then
                 (if length words > 1 then
                    (case match_words whole_terms (tl words) (Some options1) of
                       Inl e \<Rightarrow> Raise e
                     | Inr r \<Rightarrow> Continue r)
                  else Return (take 3 options1))
               else Continue remaining0) of
           Raise e \<Rightarrow> Inl e
         | Return r \<Rightarrow> Inr r
         | Continue remaining_options \<Rightarrow>
             if length words = 1 then Inr (take 3 remaining_options)
             else if length remaining_options \<le> 3 then Inr remaining_options
             else (case match_words whole_terms (tl words) (Some remaining_options) of
                     Inl e \<Rightarrow> Inl e
                   | Inr results \<Rightarrow> backfill results remaining_options)))"
  by pat_completeness auto
termination
  by (relation "measure (\<lambda>(whole_terms, words, options). length words)") auto

text \<open>
  \<open>SchoolSearchEngine.phrase\<close>: every exception of \<open>_match_words\<close> is caught and turned
  into the empty list (the two log calls do not change the returned value).
\<close>

definition phrase :: "py_str list \<Rightarrow> py_str \<Rightarrow> py_str list" where
  "phrase whole_terms q =
     (case match_words whole_terms (split space q) None of
        Inl e \<Rightarrow> []
      | Inr r \<Rightarrow> r)"

text \<open>
  \<open>console_input_search\<close>, on the lines entered at the prompt before the user interrupts
  the loop: it ends at \<open>q\<close> or at the interrupt, and each other non-empty line gives one
  list of results, which the source prints one per line; \<open>lower\<close> is the builtin
  \<open>str.lower\<close>.
\<close>

fun console_input_search ::
  "(py_str \<Rightarrow> py_str) \<Rightarrow> py_str list \<Rightarrow> py_str list \<Rightarrow> py_str list list" where
  "console_input_search lower whole_terms [] = []"
| "console_input_search lower whole_terms (line # lines) =
     (let response = lower line in
      if response = [] then console_input_search lower whole_terms lines
      else if lower response = ascii ''q'' then []
      else phrase whole_terms response # console_input_search lower whole_terms lines)"

section \<open>Call sequences and counts\<close>

text \<open>
  A run of the program is a sequence of calls of the two \<open>get_or_create\<close> methods from the
  initial state; a call that raises leaves the state to the next call as it is.
\<close>

datatype call = City_call py_str py_str | Agency_call py_str py_str

fun run_call :: "class_state \<Rightarrow> call \<Rightarrow> class_state" where
  "run_call st (City_call city_arg state_arg) = snd (City_get_or_create st city_arg state_arg)"
| "run_call st (Agency_call agency_id_arg agency_name_arg) =
     snd (Agency_get_or_create st agency_id_arg agency_name_arg)"

definition run_calls :: "class_state \<Rightarrow> call list \<Rightarrow> class_state" where
  "run_calls st calls = foldl run_call st calls"

text \<open>What a call was made with.\<close>

fun valid_call :: "call \<Rightarrow> bool" where
  "valid_call (City_call city_arg state_arg) = (length state_arg = 2)"
| "valid_call (Agency_call agency_id_arg agency_name_arg) = True"

fun names_city :: "py_str \<Rightarrow> call \<Rightarrow> bool" where
  "names_city c (City_call city_arg state_arg) = (city_arg = c)"
| "names_city c (Agency_call agency_id_arg agency_name_arg) = False"

fun names_state :: "py_str \<Rightarrow> call \<Rightarrow> bool" where
  "names_state s (City_call city_arg state_arg) = (state_arg = s)"
| "names_state s (Agency_call agency_id_arg agency_name_arg) = False"

text \<open>The count that a tally shows for a key: 0 when the key is absent.\<close>

definition count_of :: "counts \<Rightarrow> py_str \<Rightarrow> int" where
  "count_of d k = (case map_of d k of None \<Rightarrow> 0 | Some n \<Rightarrow> n)"

text \<open>
  The registries are well formed: the objects of a class are numbered in the order of
  their creation, and no two objects of a class have the same identity fields.
\<close>

definition registry_inv :: "class_state \<Rightarrow> bool" where
  "registry_inv st \<longleftrightarrow>
     map oid (City_class_obj_list st) = [0..<length (City_class_obj_list st)] \<and>
     distinct (map (\<lambda>obj. (city obj, state obj)) (City_class_obj_list st)) \<and>
     map agency_oid (Agency_class_obj_list st) = [0..<length (Agency_class_obj_list st)] \<and>
     distinct (map (\<lambda>obj. (agency_id obj, agency_name obj)) (Agency_class_obj_list st))"

text \<open>
  A reading of the builtin \<open>int\<close> for the examples: it accepts the non-empty strings of
  ASCII digits, a part of what the builtin accepts.
\<close>

definition digits_to_int :: "py_str \<Rightarrow> int option" where
  "digits_to_int v =
     (if v \<noteq> [] \<and> list_all (\<lambda>ch. 48 \<le> ch \<and> ch \<le> 57) v
      then Some (foldl (\<lambda>n ch. 10 * n + (int ch - 48)) 0 v)
      else None)"

text \<open>
  A reading of the builtin \<open>str.lower\<close> for the examples. It adds 32 to the capitals below
  U+0100 (A to Z, and U+00C0 to U+00DE without the multiplication sign U+00D7) and leaves
  every other character. This is what \<open>str.lower\<close> does on the strings whose characters
  are below U+0100 or are U+03D2, the Greek upsilon with hook symbol, an upper-case letter
  that has no lower-case form.
\<close>

definition lower_latin1 :: "py_str \<Rightarrow> py_str" where
  "lower_latin1 s =
     map (\<lambda>c. if (65 \<le> c \<and> c \<le> 90) \<or> (192 \<le> c \<and> c \<le> 222 \<and> c \<noteq> 215) then c + 32 else c) s"

declare backfill.simps [simp del]
declare match_words.simps [simp del]

section \<open>Properties of the search engine\<close>

lemma split_not_Nil: "split sep s \<noteq> []"
  by (induction s) (auto split: list.splits)

lemma split_no_sep: "sep \<notin> set s \<Longrightarrow> split sep s = [s]"
  by (induction s) auto

lemma str_in_iff: "str_in w s \<longleftrightarrow> (\<exists>ps ss. s = ps @ w @ ss)"
proof (induction s)
  case Nil
  then show ?case by auto
next
  case (Cons c cs)
  show ?case
  proof
    assume "str_in w (c # cs)"
    then consider "prefix w (c # cs)" | "str_in w cs" by auto
    then show "\<exists>ps ss. c # cs = ps @ w @ ss"
    proof cases
      case 1
      then obtain zs where "c # cs = w @ zs" by (auto simp: prefix_def)
      then have "c # cs = [] @ w @ zs" by simp
      then show ?thesis by blast
    next
      case 2
      with Cons obtain ps ss where "cs = ps @ w @ ss" by blast
      then have "c # cs = (c # ps) @ w @ ss" by simp
      then show ?thesis by blast
    qed
  next
    assume "\<exists>ps ss. c # cs = ps @ w @ ss"
    then obtain ps ss where eq: "c # cs = ps @ w @ ss" by blast
    show "str_in w (c # cs)"
    proof (cases ps)
      case Nil
      with eq have "prefix w (c # cs)" by (auto simp: prefix_def)
      then show ?thesis by simp
    next
      case (Cons p ps')
      with eq have "cs = ps' @ w @ ss" by simp
      with Cons.IH have "str_in w cs" by blast
      then show ?thesis by simp
    qed
  qed
qed

lemma options_or_Some_nonempty: "os \<noteq> [] \<Longrightarrow> options_or (Some os) wt = os"
  by (cases os) (auto simp: options_or_def)

lemma options_or_idem: "options_or (Some (options_or options wt)) wt = options_or options wt"
  by (auto simp: options_or_def split: option.splits list.splits)

lemma match_words_Nil: "match_words wt [] options = Inr (options_or options wt)"
  by (subst match_words.simps) simp

lemma match_words_single:
  "match_words wt [w] options =
     (let options1 = options_or options wt;
          remaining = filter (str_in w) options1
      in if remaining = [] then Inr (take 3 options1) else Inr (take 3 remaining))"
  by (subst match_words.simps) (simp add: Let_def)

lemma match_words_more:
  "rest \<noteq> [] \<Longrightarrow> match_words wt (w # rest) options =
     (let options1 = options_or options wt;
          remaining0 = filter (str_in w) options1
      in if remaining0 = [] then
           (case match_words wt rest (Some options1) of
              Inl e \<Rightarrow> Inl e
            | Inr remaining \<Rightarrow>
                if length remaining \<le> 3 then Inr remaining
                else (case match_words wt rest (Some remaining) of
                        Inl e \<Rightarrow> Inl e
                      | Inr results \<Rightarrow> backfill results remaining))
         else if length remaining0 \<le> 3 then Inr remaining0
         else (case match_words wt rest (Some remaining0) of
                 Inl e \<Rightarrow> Inl e
               | Inr results \<Rightarrow> backfill results remaining0))"
  by (subst match_words.simps) (auto simp: Let_def split: sum.splits)

lemma backfill_bounds:
  "backfill results remaining = Inr r \<Longrightarrow> length results \<le> 3 \<Longrightarrow>
     length r \<le> 3 \<and> set r \<subseteq> set results \<union> set remaining"
proof (induction results remaining rule: backfill.induct)
  case (1 results remaining_options)
  show ?case
  proof (cases "length results < 3")
    case False
    with "1.prems" show ?thesis by (subst (asm) backfill.simps) auto
  next
    case lt: True
    show ?thesis
    proof (cases "remaining_options = []")
      case True
      with lt "1.prems" show ?thesis by (subst (asm) backfill.simps) auto
    next
      case ne: False
      show ?thesis
      proof (cases "last remaining_options \<in> set results")
        case True
        with lt ne "1.prems" have "backfill results (butlast remaining_options) = Inr r"
          by (subst (asm) backfill.simps) (auto simp: Let_def)
        with "1.IH"(2)[OF lt ne refl refl] True "1.prems"(2)
        have "length r \<le> 3 \<and> set r \<subseteq> set results \<union> set (butlast remaining_options)"
          by auto
        then show ?thesis using in_set_butlastD by fastforce
      next
        case notin: False
        show ?thesis
        proof (cases "butlast remaining_options = []")
          case True
          with lt ne notin "1.prems" show ?thesis
            by (subst (asm) backfill.simps) (auto simp: Let_def)
        next
          case ne1: False
          with lt ne notin "1.prems"
          have eq: "backfill (results @ [last (butlast remaining_options)])
                      (butlast (butlast remaining_options)) = Inr r"
            by (subst (asm) backfill.simps) (auto simp: Let_def)
          from lt have "length (results @ [last (butlast remaining_options)]) \<le> 3" by simp
          with "1.IH"(1)[OF lt ne refl refl notin ne1 eq]
          have r: "length r \<le> 3"
            and s: "set r \<subseteq> set (results @ [last (butlast remaining_options)])
                      \<union> set (butlast (butlast remaining_options))"
            by auto
          have "last (butlast remaining_options) \<in> set remaining_options"
            using ne1 by (meson in_set_butlastD last_in_set)
          moreover have "set (butlast (butlast remaining_options)) \<subseteq> set remaining_options"
            by (meson in_set_butlastD subsetI)
          ultimately show ?thesis using r s by auto
        qed
      qed
    qed
  qed
qed

lemma match_words_bounds:
  "words \<noteq> [] \<Longrightarrow> match_words wt words options = Inr r \<Longrightarrow>
     length r \<le> 3 \<and> set r \<subseteq> set (options_or options wt)"
proof (induction words arbitrary: options r)
  case Nil
  then show ?case by simp
next
  case (Cons w rest)
  show ?case
  proof (cases "rest = []")
    case True
    with Cons.prems(2) show ?thesis
      by (auto simp: match_words_single Let_def split: if_splits dest: in_set_takeD)
  next
    case False
    note IH = Cons.IH[OF False]
    let ?o1 = "options_or options wt"
    let ?rem0 = "filter (str_in w) ?o1"
    show ?thesis
    proof (cases "?rem0 = []")
      case True
      with Cons.prems(2) False obtain remaining where
        m1: "match_words wt rest (Some ?o1) = Inr remaining"
        by (auto simp: match_words_more Let_def split: sum.splits)
      from IH[OF m1] have b: "length remaining \<le> 3" "set remaining \<subseteq> set ?o1"
        by (simp_all add: options_or_idem)
      with Cons.prems(2) False True m1 have "r = remaining"
        by (auto simp: match_words_more Let_def)
      with b show ?thesis by simp
    next
      case ne: False
      show ?thesis
      proof (cases "length ?rem0 \<le> 3")
        case True
        with Cons.prems(2) False ne have "r = ?rem0"
          by (auto simp: match_words_more Let_def)
        with True show ?thesis by auto
      next
        case big: False
        with Cons.prems(2) False ne obtain results where
          m2: "match_words wt rest (Some ?rem0) = Inr results"
          and bf: "backfill results ?rem0 = Inr r"
          by (auto simp: match_words_more Let_def split: sum.splits)
        from IH[OF m2] ne have b: "length results \<le> 3" "set results \<subseteq> set ?rem0"
          by (simp_all add: options_or_Some_nonempty)
        from backfill_bounds[OF bf b(1)] b(2) show ?thesis by auto
      qed
    qed
  qed
qed

lemma split_append_sep: "sep \<notin> set a \<Longrightarrow> split sep (a @ sep # b) = a # split sep b"
  by (induction a) auto

lemma match_words_options_cong:
  "options_or o1 wt = options_or o2 wt \<Longrightarrow> match_words wt words o1 = match_words wt words o2"
  by (subst match_words.simps, subst (2) match_words.simps) simp

lemma str_in_subset: "str_in w s \<Longrightarrow> set w \<subseteq> set s"
  by (auto simp: str_in_iff)

text \<open>
  Claim C1. After the deeper recursion returns fewer than 3 entries, the backfill is said to
  add entries of the filtered set that are not yet in the result (the entry tested being
  the entry added), without duplicates, and to stop cleanly when the pool is used up.
  The loop pops twice per round. Four schools Adams, Baker, Clark and Davis of Salem, OR
  give the cache below. For the query \<open>salem adams\<close> the loop tests the entry of Davis and
  appends that of Clark, then tests the entry of Baker and appends that of Adams a second
  time. For the query \<open>salem davis\<close> the second pop of a round finds the list empty and
  raises IndexError, which \<open>phrase\<close> turns into the empty list.
\<close>

theorem backfill_double_pop:
  "build_cache lower_latin1 (snd (load_csv digits_to_int (\<lambda>v. None :: unit option) (initial_state, [])
      [[ascii ''1'', ascii ''A1'', ascii ''Salem District'', ascii ''Adams'', ascii ''Salem'', ascii ''OR'', ascii ''44.9'', ascii ''-123.0'', ascii ''1'', ascii ''11'', ascii ''1''],
       [ascii ''2'', ascii ''A1'', ascii ''Salem District'', ascii ''Baker'', ascii ''Salem'', ascii ''OR'', ascii ''44.9'', ascii ''-123.0'', ascii ''1'', ascii ''11'', ascii ''1''],
       [ascii ''3'', ascii ''A1'', ascii ''Salem District'', ascii ''Clark'', ascii ''Salem'', ascii ''OR'', ascii ''44.9'', ascii ''-123.0'', ascii ''1'', ascii ''11'', ascii ''1''],
       [ascii ''4'', ascii ''A1'', ascii ''Salem District'', ascii ''Davis'', ascii ''Salem'', ascii ''OR'', ascii ''44.9'', ascii ''-123.0'', ascii ''1'', ascii ''11'', ascii ''1'']]))
     = [ascii ''adams salem or'', ascii ''baker salem or'', ascii ''clark salem or'', ascii ''davis salem or''] \<and>
   backfill [ascii ''adams salem or'']
       [ascii ''adams salem or'', ascii ''baker salem or'', ascii ''clark salem or'', ascii ''davis salem or'']
     = Inr [ascii ''adams salem or'', ascii ''clark salem or'', ascii ''adams salem or''] \<and>
   phrase [ascii ''adams salem or'', ascii ''baker salem or'', ascii ''clark salem or'', ascii ''davis salem or'']
       (ascii ''salem adams'')
     = [ascii ''adams salem or'', ascii ''clark salem or'', ascii ''adams salem or''] \<and>
   backfill [ascii ''davis salem or'']
       [ascii ''adams salem or'', ascii ''baker salem or'', ascii ''clark salem or'', ascii ''davis salem or'']
     = Inl IndexError \<and>
   match_words [ascii ''adams salem or'', ascii ''baker salem or'', ascii ''clark salem or'', ascii ''davis salem or'']
       [ascii ''salem'', ascii ''davis''] None
     = Inl IndexError \<and>
   phrase [ascii ''adams salem or'', ascii ''baker salem or'', ascii ''clark salem or'', ascii ''davis salem or'']
       (ascii ''salem davis'') = []"
  by code_simp

text \<open>
  Claim C2. For every cache and every query string, \<open>phrase\<close> returns a list of at most 3
  entries, each an element of the cache, and an exception raised inside \<open>_match_words\<close>
  is answered by the empty list.
\<close>
theorem phrase_contained:
  "length (phrase whole_terms q) \<le> 3 \<and>
   set (phrase whole_terms q) \<subseteq> set whole_terms \<and>
   (\<forall>e. match_words whole_terms (split space q) None = Inl e \<longrightarrow> phrase whole_terms q = [])"
proof (cases "match_words whole_terms (split space q) None")
  case (Inl e)
  then show ?thesis by (simp add: phrase_def)
next
  case (Inr r)
  from match_words_bounds[OF split_not_Nil Inr]
  have "length r \<le> 3" "set r \<subseteq> set whole_terms"
    by (simp_all add: options_or_def)
  with Inr show ?thesis by (simp add: phrase_def)
qed

theorem phrase_contained_witness:
  "match_words [ascii ''adams salem or'', ascii ''baker salem or'', ascii ''clark salem or'', ascii ''davis salem or'']
       (split space (ascii ''salem davis'')) None = Inl IndexError \<and>
   phrase [ascii ''adams salem or'', ascii ''baker salem or'', ascii ''clark salem or'', ascii ''davis salem or'']
       (ascii ''salem davis'') = [] \<and>
   length (phrase [ascii ''adams salem or'', ascii ''baker salem or'', ascii ''clark salem or'', ascii ''davis salem or'']
       (ascii ''salem'')) \<le> 3"
proof -
  let ?wt = "[ascii ''adams salem or'', ascii ''baker salem or'', ascii ''clark salem or'', ascii ''davis salem or'']"
  have e: "match_words ?wt (split space (ascii ''salem davis'')) None = Inl IndexError"
    by code_simp
  from phrase_contained[of ?wt "ascii ''salem davis''"] e
  have "phrase ?wt (ascii ''salem davis'') = []" by blast
  with e phrase_contained[of ?wt "ascii ''salem''"] show ?thesis by blast
qed

text \<open>
  Claim C3. When the last remaining word matches no entry of the candidate set,
  \<open>_match_words\<close> returns the first 3 candidates in cache order; a query of one word that
  matches nothing returns the first 3 cache entries.
\<close>
theorem last_word_no_match:
  "(filter (str_in w) (options_or options whole_terms) = [] \<longrightarrow>
      match_words whole_terms [w] options = Inr (take 3 (options_or options whole_terms))) \<and>
   (space \<notin> set q \<and> (\<forall>entry \<in> set whole_terms. \<not> str_in q entry) \<longrightarrow>
      phrase whole_terms q = take 3 whole_terms)"
proof (intro conjI impI)
  assume "filter (str_in w) (options_or options whole_terms) = []"
  then show "match_words whole_terms [w] options = Inr (take 3 (options_or options whole_terms))"
    by (simp add: match_words_single)
next
  assume a: "space \<notin> set q \<and> (\<forall>entry \<in> set whole_terms. \<not> str_in q entry)"
  then have "filter (str_in q) whole_terms = []" by (simp add: filter_empty_conv)
  with a show "phrase whole_terms q = take 3 whole_terms"
    by (simp add: phrase_def split_no_sep match_words_single options_or_def)
qed

theorem last_word_no_match_witness:
  "phrase [ascii ''lincoln elementary springfield il'', ascii ''springfield high springfield il'',
           ascii ''jefferson springfield il'', ascii ''adams middle shelbyville il''] (ascii ''xyz123nomatch'')
     = [ascii ''lincoln elementary springfield il'', ascii ''springfield high springfield il'',
        ascii ''jefferson springfield il'']"
proof -
  let ?wt = "[ascii ''lincoln elementary springfield il'', ascii ''springfield high springfield il'',
              ascii ''jefferson springfield il'', ascii ''adams middle shelbyville il'']"
  have a: "space \<notin> set (ascii ''xyz123nomatch'')" by (simp add: ascii_def)
  have b: "\<forall>entry \<in> set ?wt. \<not> str_in (ascii ''xyz123nomatch'') entry" by code_simp
  from last_word_no_match[of "ascii ''xyz123nomatch''" None ?wt "ascii ''xyz123nomatch''"] a b
  have "phrase ?wt (ascii ''xyz123nomatch'') = take 3 ?wt" by blast
  then show ?thesis by simp
qed

text \<open>
  Claim C4. A word that is not the last one and matches no candidate is skipped: the call
  equals the call on the remaining words against the same candidate set, so a query whose
  leading word matches nothing gives the result of the query without that word; and a
  query of two words of which only the first matches gives the first 3 entries matching
  the first word.
\<close>
theorem unmatched_word_dropped:
  "(rest \<noteq> [] \<and> filter (str_in w) (options_or options whole_terms) = [] \<longrightarrow>
      match_words whole_terms (w # rest) options
        = match_words whole_terms rest (Some (options_or options whole_terms))) \<and>
   (space \<notin> set w \<and> filter (str_in w) whole_terms = [] \<longrightarrow>
      phrase whole_terms (w @ ascii '' '' @ q) = phrase whole_terms q) \<and>
   (space \<notin> set w1 \<and> space \<notin> set w2 \<and>
    filter (str_in w1) whole_terms \<noteq> [] \<and> filter (str_in w2) whole_terms = [] \<longrightarrow>
      phrase whole_terms (w1 @ ascii '' '' @ w2) = take 3 (filter (str_in w1) whole_terms))"
proof -
  have drop: "match_words wt (v # vs) opts = match_words wt vs (Some (options_or opts wt))"
    if "vs \<noteq> []" "filter (str_in v) (options_or opts wt) = []" for wt v vs opts
  proof (cases "match_words wt vs (Some (options_or opts wt))")
    case (Inl e)
    with that show ?thesis by (simp add: match_words_more)
  next
    case (Inr r)
    from match_words_bounds[OF that(1) Inr] have "length r \<le> 3" by simp
    with that Inr show ?thesis by (simp add: match_words_more)
  qed
  have first: "phrase whole_terms (w @ ascii '' '' @ q) = phrase whole_terms q"
    if "space \<notin> set w" "filter (str_in w) whole_terms = []"
  proof -
    have "match_words whole_terms (w # split space q) None
            = match_words whole_terms (split space q) (Some (options_or None whole_terms))"
      using that by (intro drop) (simp_all add: split_not_Nil options_or_def)
    also have "\<dots> = match_words whole_terms (split space q) None"
      by (rule match_words_options_cong) (simp add: options_or_idem)
    finally show ?thesis using that(1) by (simp add: phrase_def split_append_sep ascii_def)
  qed
  have last: "phrase whole_terms (w1 @ ascii '' '' @ w2) = take 3 (filter (str_in w1) whole_terms)"
    if "space \<notin> set w1" "space \<notin> set w2"
       "filter (str_in w1) whole_terms \<noteq> []" "filter (str_in w2) whole_terms = []"
  proof -
    let ?R = "filter (str_in w1) whole_terms"
    have sp: "split space (w1 @ ascii '' '' @ w2) = [w1, w2]"
      using that(1,2) by (simp add: split_append_sep split_no_sep ascii_def)
    have none: "filter (str_in w2) ?R = []"
      using that(4) by (auto simp: filter_empty_conv)
    have inner: "match_words whole_terms [w2] (Some ?R) = Inr (take 3 ?R)"
      using that(3) none by (simp add: match_words_single options_or_Some_nonempty)
    have "match_words whole_terms [w1, w2] None = Inr (take 3 ?R)"
    proof (cases "length ?R \<le> 3")
      case True
      with that(3) show ?thesis by (simp add: match_words_more options_or_def)
    next
      case False
      then have "length (take 3 ?R) = 3" by simp
      then have "backfill (take 3 ?R) ?R = Inr (take 3 ?R)"
        by (subst backfill.simps) simp
      with False that(3) inner show ?thesis
        by (simp add: match_words_more options_or_def)
    qed
    with sp show ?thesis by (simp add: phrase_def)
  qed
  from drop first last show ?thesis by blast
qed

theorem unmatched_word_dropped_witness:
  "match_words [ascii ''lincoln elementary springfield il'', ascii ''springfield high springfield il'',
                ascii ''jefferson springfield il''] [ascii ''nomatchword'', ascii ''lincoln''] None
     = match_words [ascii ''lincoln elementary springfield il'', ascii ''springfield high springfield il'',
                ascii ''jefferson springfield il''] [ascii ''lincoln'']
         (Some [ascii ''lincoln elementary springfield il'', ascii ''springfield high springfield il'',
                ascii ''jefferson springfield il'']) \<and>
   phrase [ascii ''lincoln elementary springfield il'', ascii ''springfield high springfield il'',
           ascii ''jefferson springfield il''] (ascii ''nomatchword lincoln'')
     = phrase [ascii ''lincoln elementary springfield il'', ascii ''springfield high springfield il'',
           ascii ''jefferson springfield il''] (ascii ''lincoln'') \<and>
   phrase [ascii ''lincoln elementary springfield il'', ascii ''springfield high springfield il'',
           ascii ''jefferson springfield il''] (ascii ''lincoln nomatchword'')
     = [ascii ''lincoln elementary springfield il'']"
proof -
  let ?wt = "[ascii ''lincoln elementary springfield il'', ascii ''springfield high springfield il'',
              ascii ''jefferson springfield il'']"
  note inst = unmatched_word_dropped[of "[ascii ''lincoln'']" "ascii ''nomatchword''" None ?wt
      "ascii ''lincoln''" "ascii ''lincoln''" "ascii ''nomatchword''"]
  have o: "options_or None ?wt = ?wt" by (simp add: options_or_def)
  have none: "filter (str_in (ascii ''nomatchword'')) ?wt = []" by code_simp
  have some: "filter (str_in (ascii ''lincoln'')) ?wt = [ascii ''lincoln elementary springfield il'']"
    by code_simp
  have sp: "space \<notin> set (ascii ''nomatchword'')" "space \<notin> set (ascii ''lincoln'')" by (simp_all add: ascii_def)
  from inst o none have 1: "match_words ?wt [ascii ''nomatchword'', ascii ''lincoln''] None
      = match_words ?wt [ascii ''lincoln''] (Some ?wt)" by simp
  from inst none sp have 2: "phrase ?wt (ascii ''nomatchword'' @ ascii '' '' @ ascii ''lincoln'') = phrase ?wt (ascii ''lincoln'')"
    by blast
  from inst none some sp
  have 3: "phrase ?wt (ascii ''lincoln'' @ ascii '' '' @ ascii ''nomatchword'') = take 3 (filter (str_in (ascii ''lincoln'')) ?wt)"
    by simp
  from 1 2 3 some show ?thesis by (simp add: ascii_def)
qed

lemma lower_latin1_no_capital: "65 \<le> n \<and> n \<le> 90 \<Longrightarrow> n \<notin> set (lower_latin1 s)"
  by (auto simp: lower_latin1_def)

lemma lower_latin1_idem: "lower_latin1 (lower_latin1 s) = lower_latin1 s"
  by (induction s) (auto simp: lower_latin1_def)

lemma build_cache_chars:
  assumes "entry \<in> set (build_cache lower dataset)" and "c \<in> set entry"
  shows "c = space \<or> (\<exists>s. c \<in> set (lower s))"
  using assms by (auto simp: build_cache_def ascii_def)

text \<open>
  Claim C10, as amended. \<open>phrase\<close> does not case-fold: a query word is matched by substring
  containment against the cache entries, which are outputs of \<open>str.lower\<close> joined by
  spaces. A word that contains a character which \<open>str.lower\<close> never yields, and every
  ASCII capital is one, matches no cache entry. There are a built cache and a query whose
  result differs from that of the lowercased query. The console loop lowercases each line
  before it calls \<open>phrase\<close>, so its output is the same for a line and for the lowercased
  line.
\<close>

theorem phrase_no_case_fold:
  "(c \<in> set w \<and> c \<noteq> space \<and> (\<forall>s. c \<notin> set (lower s)) \<longrightarrow>
      (\<forall>entry \<in> set (build_cache lower dataset). \<not> str_in w entry)) \<and>
   (65 \<le> n \<and> n \<le> 90 \<longrightarrow> n \<notin> set (lower_latin1 s)) \<and>
   (\<exists>(ds :: 'f school list) q.
      phrase (build_cache lower_latin1 ds) q
        \<noteq> phrase (build_cache lower_latin1 ds) (lower_latin1 q)) \<and>
   (lower line \<noteq> [] \<and> lower (lower line) \<noteq> ascii ''q'' \<longrightarrow>
      console_input_search lower whole_terms [line] = [phrase whole_terms (lower line)]) \<and>
   ((\<forall>s. lower (lower s) = lower s) \<longrightarrow>
      console_input_search lower whole_terms lines
        = console_input_search lower whole_terms (map lower lines))"
proof (intro conjI impI ballI)
  fix entry
  assume h: "c \<in> set w \<and> c \<noteq> space \<and> (\<forall>s. c \<notin> set (lower s))"
    and e: "entry \<in> set (build_cache lower dataset)"
  show "\<not> str_in w entry"
  proof
    assume "str_in w entry"
    then have "set w \<subseteq> set entry" by (rule str_in_subset)
    with h have "c \<in> set entry" by blast
    from build_cache_chars[OF e this] h show False by blast
  qed
next
  assume "65 \<le> n \<and> n \<le> 90"
  then show "n \<notin> set (lower_latin1 s)" by (rule lower_latin1_no_capital)
next
  let ?ag = "\<lparr>agency_oid = 0, agency_id = ascii ''A1'', agency_name = ascii ''Salem District''\<rparr>"
  let ?ci = "\<lparr>oid = 0, city = ascii ''Salem'', state = ascii ''OR''\<rparr>"
  let ?ds = "[\<lparr>school_id = ascii ''1'', school_name = ascii ''Adams'', school_agency = ?ag,
                school_city = ?ci, lat = Inl [], long = Inl [], locale_code = None,
                urban_code = None, status_code = None\<rparr>,
              \<lparr>school_id = ascii ''2'', school_name = ascii ''Lincoln'', school_agency = ?ag,
                school_city = ?ci, lat = Inl [], long = Inl [], locale_code = None,
                urban_code = None, status_code = None\<rparr>] :: 'f school list"
  have c: "build_cache lower_latin1 ?ds = [ascii ''adams salem or'', ascii ''lincoln salem or'']"
    by (simp add: build_cache_def) code_simp
  have "phrase [ascii ''adams salem or'', ascii ''lincoln salem or''] (ascii ''Lincoln'')
          \<noteq> phrase [ascii ''adams salem or'', ascii ''lincoln salem or'']
              (lower_latin1 (ascii ''Lincoln''))"
    by code_simp
  with c have "phrase (build_cache lower_latin1 ?ds) (ascii ''Lincoln'')
      \<noteq> phrase (build_cache lower_latin1 ?ds) (lower_latin1 (ascii ''Lincoln''))"
    by simp
  then show "\<exists>(ds :: 'f school list) q. phrase (build_cache lower_latin1 ds) q
      \<noteq> phrase (build_cache lower_latin1 ds) (lower_latin1 q)"
    by blast
next
  assume "lower line \<noteq> [] \<and> lower (lower line) \<noteq> ascii ''q''"
  then show "console_input_search lower whole_terms [line] = [phrase whole_terms (lower line)]"
    by (simp add: Let_def)
next
  assume "\<forall>s. lower (lower s) = lower s"
  then show "console_input_search lower whole_terms lines
        = console_input_search lower whole_terms (map lower lines)"
    by (induction lines) (simp_all add: Let_def)
qed

theorem phrase_no_case_fold_witness:
  "build_cache lower_latin1
     [\<lparr>school_id = ascii ''2'', school_name = ascii ''Lincoln'',
       school_agency = \<lparr>agency_oid = 0, agency_id = ascii ''A1'',
                        agency_name = ascii ''Salem District''\<rparr>,
       school_city = \<lparr>oid = 0, city = ascii ''Salem'', state = ascii ''OR''\<rparr>,
       lat = Inl [], long = (Inl [] :: py_str + unit), locale_code = None,
       urban_code = None, status_code = None\<rparr>] = [ascii ''lincoln salem or''] \<and>
   \<not> str_in (ascii ''Lincoln'') (ascii ''lincoln salem or'') \<and>
   console_input_search lower_latin1 [ascii ''lincoln salem or''] [ascii ''Lincoln'']
     = [[ascii ''lincoln salem or'']] \<and>
   console_input_search lower_latin1 [ascii ''lincoln salem or''] [ascii ''Lincoln'']
     = console_input_search lower_latin1 [ascii ''lincoln salem or''] [ascii ''lincoln'']"
proof -
  let ?ds = "[\<lparr>school_id = ascii ''2'', school_name = ascii ''Lincoln'',
       school_agency = \<lparr>agency_oid = 0, agency_id = ascii ''A1'',
                        agency_name = ascii ''Salem District''\<rparr>,
       school_city = \<lparr>oid = 0, city = ascii ''Salem'', state = ascii ''OR''\<rparr>,
       lat = Inl [], long = (Inl [] :: py_str + unit), locale_code = None,
       urban_code = None, status_code = None\<rparr>]"
  note inst = phrase_no_case_fold[where c = 76 and w = "ascii ''Lincoln''"
      and lower = lower_latin1 and dataset = ?ds and n = 76 and s = "ascii ''Lincoln''"
      and line = "ascii ''Lincoln''" and whole_terms = "[ascii ''lincoln salem or'']"
      and lines = "[ascii ''Lincoln'']"]
  have m: "build_cache lower_latin1 ?ds = [ascii ''lincoln salem or'']"
    by (simp add: build_cache_def) code_simp
  have cw: "76 \<in> set (ascii ''Lincoln'') \<and> (76::nat) \<noteq> space" by (simp add: ascii_def)
  have cap: "(65::nat) \<le> 76 \<and> (76::nat) \<le> 90" by simp
  from inst cap have never: "\<forall>s. 76 \<notin> set (lower_latin1 s)"
    using lower_latin1_no_capital by blast
  from inst cw never have "\<forall>entry \<in> set (build_cache lower_latin1 ?ds).
      \<not> str_in (ascii ''Lincoln'') entry" by blast
  with m have 1: "\<not> str_in (ascii ''Lincoln'') (ascii ''lincoln salem or'')" by simp
  have l: "lower_latin1 (ascii ''Lincoln'') = ascii ''lincoln''" by code_simp
  have p: "phrase [ascii ''lincoln salem or''] (ascii ''lincoln'') = [ascii ''lincoln salem or'']"
    by code_simp
  have nq: "lower_latin1 (ascii ''Lincoln'') \<noteq> [] \<and>
            lower_latin1 (lower_latin1 (ascii ''Lincoln'')) \<noteq> ascii ''q''" by code_simp
  from inst nq have "console_input_search lower_latin1 [ascii ''lincoln salem or''] [ascii ''Lincoln'']
      = [phrase [ascii ''lincoln salem or''] (lower_latin1 (ascii ''Lincoln''))]" by blast
  with l p have 2: "console_input_search lower_latin1 [ascii ''lincoln salem or''] [ascii ''Lincoln'']
      = [[ascii ''lincoln salem or'']]" by simp
  from inst lower_latin1_idem
  have "console_input_search lower_latin1 [ascii ''lincoln salem or''] [ascii ''Lincoln'']
      = console_input_search lower_latin1 [ascii ''lincoln salem or'']
          (map lower_latin1 [ascii ''Lincoln''])" by blast
  with l have 3: "console_input_search lower_latin1 [ascii ''lincoln salem or''] [ascii ''Lincoln'']
     = console_input_search lower_latin1 [ascii ''lincoln salem or''] [ascii ''lincoln'']"
    by simp
  from m 1 2 3 show ?thesis by blast
qed

text \<open>
  Claim C10 as it was stated says that a word with any upper-case letter matches no cache
  entry. The character U+03D2 (code point 978) is an upper-case letter that \<open>str.lower\<close>
  leaves as it is. A school named with it gives a cache entry that holds the character, and
  the query of that one character returns this entry.
\<close>

theorem phrase_no_case_fold_counterexample:
  "build_cache lower_latin1
     [\<lparr>school_id = ascii ''1'', school_name = ascii ''Adams'',
       school_agency = \<lparr>agency_oid = 0, agency_id = ascii ''A1'',
                        agency_name = ascii ''Salem District''\<rparr>,
       school_city = \<lparr>oid = 0, city = ascii ''Salem'', state = ascii ''OR''\<rparr>,
       lat = Inl (ascii ''x''), long = (Inl (ascii ''y'') :: py_str + unit),
       locale_code = None, urban_code = None, status_code = None\<rparr>,
      \<lparr>school_id = ascii ''2'', school_name = 978 # ascii '' Academy'',
       school_agency = \<lparr>agency_oid = 0, agency_id = ascii ''A1'',
                        agency_name = ascii ''Salem District''\<rparr>,
       school_city = \<lparr>oid = 0, city = ascii ''Salem'', state = ascii ''OR''\<rparr>,
       lat = Inl (ascii ''x''), long = (Inl (ascii ''y'') :: py_str + unit),
       locale_code = None, urban_code = None, status_code = None\<rparr>]
     = [ascii ''adams salem or'', 978 # ascii '' academy salem or''] \<and>
   str_in [978] (978 # ascii '' academy salem or'') \<and>
   phrase [ascii ''adams salem or'', 978 # ascii '' academy salem or''] [978]
     = [978 # ascii '' academy salem or'']"
  by code_simp

section \<open>Properties of the data model\<close>

lemma map_of_dict_set: "map_of (dict_set d k v) = (map_of d)(k \<mapsto> v)"
  by (induction d) (auto simp: fun_eq_iff)

lemma sum_dict_set_new:
  "map_of d k = None \<Longrightarrow> sum_list (map snd (dict_set d k v)) = sum_list (map snd d) + (v::int)"
  by (induction d) (auto split: if_splits)

lemma sum_dict_set_old:
  "map_of d k = Some n \<Longrightarrow> sum_list (map snd (dict_set d k v)) = sum_list (map snd d) - n + (v::int)"
  by (induction d) (auto split: if_splits)

lemma count_up_key_present: "map_of (if map_of d k = None then dict_set d k 0 else d) k \<noteq> None"
  by (simp add: map_of_dict_set)

lemma map_of_count_up:
  "map_of (count_up d k) = (map_of d)(k \<mapsto> count_of d k + 1)"
  by (auto simp: count_up_def count_of_def map_of_dict_set Let_def)

lemma count_of_count_up:
  "count_of (count_up d k) k' = count_of d k' + (if k' = k then 1 else 0)"
  by (simp add: count_of_def map_of_count_up)

lemma sum_count_up: "sum_list (map snd (count_up d k)) = sum_list (map snd d) + 1"
proof (cases "map_of d k")
  case None
  then have "map_of (dict_set d k 0) k = Some 0" by (simp add: map_of_dict_set)
  with None show ?thesis
    by (simp add: count_up_def sum_dict_set_old sum_dict_set_new)
next
  case (Some n)
  then show ?thesis by (simp add: count_up_def sum_dict_set_old)
qed

lemma City_search:
  "search City_search_fields objs [(ascii ''city'', c), (ascii ''state'', s)]
     = filter (\<lambda>obj. city obj = c \<and> state obj = s) objs"
  by (simp add: search_def City_search_fields_def ascii_def)

lemma Agency_search:
  "search Agency_search_fields objs [(ascii ''agency_id'', i), (ascii ''agency_name'', n)]
     = filter (\<lambda>obj. agency_id obj = i \<and> agency_name obj = n) objs"
  by (simp add: search_def Agency_search_fields_def ascii_def)

lemma City_get_or_create_invalid:
  "length s \<noteq> 2 \<Longrightarrow> City_get_or_create st c s = (Inl ValueError, st)"
  by (simp add: City_get_or_create_def)

lemma City_get_or_create_counts:
  "length s = 2 \<Longrightarrow>
     City_counts_city (snd (City_get_or_create st c s)) = count_up (City_counts_city st) c \<and>
     City_counts_state (snd (City_get_or_create st c s)) = count_up (City_counts_state st) s"
  by (simp add: City_get_or_create_def City_init_def City_search Let_def)

lemma Agency_get_or_create_counts:
  "City_counts_city (snd (Agency_get_or_create st i n)) = City_counts_city st \<and>
   City_counts_state (snd (Agency_get_or_create st i n)) = City_counts_state st \<and>
   City_class_obj_list (snd (Agency_get_or_create st i n)) = City_class_obj_list st"
  by (simp add: Agency_get_or_create_def Agency_init_def Agency_search Let_def)

lemma run_calls_Nil: "run_calls st [] = st"
  by (simp add: run_calls_def)

lemma run_calls_snoc: "run_calls st (calls @ [k]) = run_call (run_calls st calls) k"
  by (simp add: run_calls_def)

lemma run_calls_city_count:
  "count_of (City_counts_city (run_calls st calls)) c
     = count_of (City_counts_city st) c
       + int (length (filter (\<lambda>k. names_city c k \<and> valid_call k) calls))"
proof (induction calls rule: rev_induct)
  case Nil
  then show ?case by (simp add: run_calls_Nil)
next
  case (snoc k calls)
  show ?case
  proof (cases k)
    case (City_call c' s')
    show ?thesis
    proof (cases "length s' = 2")
      case True
      with snoc City_call show ?thesis
        by (simp add: run_calls_snoc City_get_or_create_counts count_of_count_up)
    next
      case False
      with snoc City_call show ?thesis
        by (simp add: run_calls_snoc City_get_or_create_invalid)
    qed
  next
    case (Agency_call i n)
    with snoc show ?thesis by (simp add: run_calls_snoc Agency_get_or_create_counts)
  qed
qed

lemma run_calls_state_count:
  "count_of (City_counts_state (run_calls st calls)) s
     = count_of (City_counts_state st) s
       + int (length (filter (\<lambda>k. names_state s k \<and> valid_call k) calls))"
proof (induction calls rule: rev_induct)
  case Nil
  then show ?case by (simp add: run_calls_Nil)
next
  case (snoc k calls)
  show ?case
  proof (cases k)
    case (City_call c' s')
    show ?thesis
    proof (cases "length s' = 2")
      case True
      with snoc City_call show ?thesis
        by (simp add: run_calls_snoc City_get_or_create_counts count_of_count_up)
    next
      case False
      with snoc City_call show ?thesis
        by (simp add: run_calls_snoc City_get_or_create_invalid)
    qed
  next
    case (Agency_call i n)
    with snoc show ?thesis by (simp add: run_calls_snoc Agency_get_or_create_counts)
  qed
qed

text \<open>
  Claim C6. A call of \<open>City.get_or_create\<close> with a state of 2 characters returns an
  instance and adds exactly one to the count of its city name and one to the count of its
  state, on a hit as on a miss, and changes no other count. After any sequence of calls
  from the initial state the count of a city name is the number of calls made with that
  name and a state of 2 characters: the number of calls with that name when every call
  of the sequence is valid.
\<close>
theorem city_counts_request_volume:
  "(length s = 2 \<longrightarrow>
      (\<exists>a. fst (City_get_or_create st c s) = Inr a) \<and>
      (\<forall>k. count_of (City_counts_city (snd (City_get_or_create st c s))) k
             = count_of (City_counts_city st) k + (if k = c then 1 else 0)) \<and>
      (\<forall>k. count_of (City_counts_state (snd (City_get_or_create st c s))) k
             = count_of (City_counts_state st) k + (if k = s then 1 else 0))) \<and>
   count_of (City_counts_city (run_calls initial_state calls)) c
     = int (length (filter (\<lambda>k. names_city c k \<and> valid_call k) calls)) \<and>
   count_of (City_counts_state (run_calls initial_state calls)) s
     = int (length (filter (\<lambda>k. names_state s k \<and> valid_call k) calls)) \<and>
   ((\<forall>k \<in> set calls. valid_call k) \<longrightarrow>
      count_of (City_counts_city (run_calls initial_state calls)) c
        = int (length (filter (names_city c) calls)))"
proof (intro conjI impI allI)
  assume v: "length s = 2"
  then show "\<exists>a. fst (City_get_or_create st c s) = Inr a"
    by (simp add: City_get_or_create_def City_init_def Let_def)
  fix k
  from v show "count_of (City_counts_city (snd (City_get_or_create st c s))) k
             = count_of (City_counts_city st) k + (if k = c then 1 else 0)"
    by (simp add: City_get_or_create_counts count_of_count_up)
  from v show "count_of (City_counts_state (snd (City_get_or_create st c s))) k
             = count_of (City_counts_state st) k + (if k = s then 1 else 0)"
    by (simp add: City_get_or_create_counts count_of_count_up)
next
  show "count_of (City_counts_city (run_calls initial_state calls)) c
     = int (length (filter (\<lambda>k. names_city c k \<and> valid_call k) calls))"
    by (simp add: run_calls_city_count) (simp add: initial_state_def count_of_def)
next
  show "count_of (City_counts_state (run_calls initial_state calls)) s
     = int (length (filter (\<lambda>k. names_state s k \<and> valid_call k) calls))"
    by (simp add: run_calls_state_count) (simp add: initial_state_def count_of_def)
next
  assume "\<forall>k \<in> set calls. valid_call k"
  then have "filter (\<lambda>k. names_city c k \<and> valid_call k) calls = filter (names_city c) calls"
    by (intro filter_cong) auto
  then show "count_of (City_counts_city (run_calls initial_state calls)) c
        = int (length (filter (names_city c) calls))"
    by (simp add: run_calls_city_count) (simp add: initial_state_def count_of_def)
qed

theorem city_counts_request_volume_witness:
  "length (ascii ''IL'') = 2 \<and>
   count_of (City_counts_city (snd (City_get_or_create initial_state (ascii ''Springfield'') (ascii ''IL''))))
     (ascii ''Springfield'') = 1 \<and>
   count_of (City_counts_city (run_calls initial_state
       [City_call (ascii ''Springfield'') (ascii ''IL''), Agency_call (ascii ''A1'') (ascii ''District 1''),
        City_call (ascii ''Springfield'') (ascii ''IL''), City_call (ascii ''Salem'') (ascii ''OR'')])) (ascii ''Springfield'') = 2"
proof -
  let ?calls = "[City_call (ascii ''Springfield'') (ascii ''IL''), Agency_call (ascii ''A1'') (ascii ''District 1''),
                 City_call (ascii ''Springfield'') (ascii ''IL''), City_call (ascii ''Salem'') (ascii ''OR'')]"
  note inst = city_counts_request_volume[where s = "ascii ''IL''" and st = initial_state
      and c = "ascii ''Springfield''" and calls = ?calls]
  have v: "length (ascii ''IL'') = 2" by (simp add: ascii_def)
  have a: "\<forall>k \<in> set ?calls. valid_call k" by (simp add: ascii_def)
  have z: "count_of (City_counts_city initial_state) (ascii ''Springfield'') = 0"
    by (simp add: initial_state_def count_of_def)
  from inst v z
  have 1: "count_of (City_counts_city (snd (City_get_or_create initial_state (ascii ''Springfield'') (ascii ''IL''))))
     (ascii ''Springfield'') = 1" by simp
  from inst a
  have "count_of (City_counts_city (run_calls initial_state ?calls)) (ascii ''Springfield'')
      = int (length (filter (names_city (ascii ''Springfield'')) ?calls))" by blast
  then have 2: "count_of (City_counts_city (run_calls initial_state ?calls)) (ascii ''Springfield'') = 2"
    by (simp add: ascii_def)
  from v 1 2 show ?thesis by blast
qed

lemma convert_type_default:
  "convert_type target_type v False = Inr (case target_type v of None \<Rightarrow> Inl v | Some x \<Rightarrow> Inr x)"
  by (simp add: convert_type_def split: option.splits)

lemma Agency_get_or_create_other:
  "City_class_obj_list (snd (Agency_get_or_create st i n)) = City_class_obj_list st"
  "City_counts_city (snd (Agency_get_or_create st i n)) = City_counts_city st"
  "City_counts_state (snd (Agency_get_or_create st i n)) = City_counts_state st"
  "School_locale_code_count (snd (Agency_get_or_create st i n)) = School_locale_code_count st"
  "School_urban_code_count (snd (Agency_get_or_create st i n)) = School_urban_code_count st"
  "School_status_code_count (snd (Agency_get_or_create st i n)) = School_status_code_count st"
  by (simp_all add: Agency_get_or_create_def Agency_init_def Let_def)

lemma City_get_or_create_other:
  "Agency_class_obj_list (snd (City_get_or_create st c s)) = Agency_class_obj_list st"
  "School_locale_code_count (snd (City_get_or_create st c s)) = School_locale_code_count st"
  "School_urban_code_count (snd (City_get_or_create st c s)) = School_urban_code_count st"
  "School_status_code_count (snd (City_get_or_create st c s)) = School_status_code_count st"
  by (simp_all add: City_get_or_create_def City_init_def Let_def)

lemma School_init_invalid:
  assumes "length s \<noteq> 2"
  shows "School_init pi pf st sid aid an nm c s la lo lc uc sc
           = (Inl ValueError, snd (Agency_get_or_create st aid an))"
  using assms
  by (simp add: School_init_def City_get_or_create_invalid split: prod.splits)

text \<open>
  Claim C7. \<open>City.get_or_create\<close> with a state whose length is not 2 raises ValueError and
  leaves the whole state as it was; the School constructor, its caller, ends with that
  ValueError, and the list of City instances and both counters are unchanged.
\<close>
theorem city_invalid_state_rejected:
  "length s \<noteq> 2 \<longrightarrow>
     City_get_or_create st c s = (Inl ValueError, st) \<and>
     fst (School_init pi pf st sid aid an nm c s la lo lc uc sc) = Inl ValueError \<and>
     City_class_obj_list (snd (School_init pi pf st sid aid an nm c s la lo lc uc sc))
       = City_class_obj_list st \<and>
     City_counts_city (snd (School_init pi pf st sid aid an nm c s la lo lc uc sc))
       = City_counts_city st \<and>
     City_counts_state (snd (School_init pi pf st sid aid an nm c s la lo lc uc sc))
       = City_counts_state st"
  by (simp add: City_get_or_create_invalid School_init_invalid Agency_get_or_create_other)

theorem city_invalid_state_rejected_witness:
  "length (ascii ''Oregon'') \<noteq> 2 \<and>
   City_get_or_create initial_state (ascii ''Salem'') (ascii ''Oregon'') = (Inl ValueError, initial_state) \<and>
   City_class_obj_list (snd (City_get_or_create initial_state (ascii ''Salem'') (ascii ''Oregon''))) = []"
proof -
  have n: "length (ascii ''Oregon'') \<noteq> 2" by (simp add: ascii_def)
  from city_invalid_state_rejected[where s = "ascii ''Oregon''" and st = initial_state and c = "ascii ''Salem''"] n
  have 1: "City_get_or_create initial_state (ascii ''Salem'') (ascii ''Oregon'') = (Inl ValueError, initial_state)"
    by blast
  then have "City_class_obj_list (snd (City_get_or_create initial_state (ascii ''Salem'') (ascii ''Oregon''))) = []"
    by (simp add: initial_state_def)
  with n 1 show ?thesis by blast
qed

text \<open>
  Claim C9. \<open>get_count_metadata\<close> with a name that is not a key of \<open>_counts_lookup\<close>
  returns the empty list and emits one warning; with a key it returns the dict stored
  under that key, which is the class attribute itself, so that a later update of the tally
  shows through it; with no name it returns the list of all dicts of \<open>_counts_lookup\<close>.
\<close>
theorem get_count_metadata_total:
  "(map_of counts_lookup n = None \<longrightarrow>
      fst (get_count_metadata counts_lookup (Some n)) = List [] \<and>
      (\<exists>message. snd (get_count_metadata counts_lookup (Some n)) = [(WARNING, message)])) \<and>
   (\<forall>d. map_of counts_lookup n = Some d \<longrightarrow>
      get_count_metadata counts_lookup (Some n) = (Dict d, [])) \<and>
   get_count_metadata counts_lookup None = (List (map snd counts_lookup), []) \<and>
   get_count_metadata City_counts_lookup (Some (ascii ''city'')) = (Dict Counts_city, []) \<and>
   get_count_metadata City_counts_lookup (Some (ascii ''state'')) = (Dict Counts_state, []) \<and>
   get_count_metadata School_counts_lookup (Some (ascii ''locale'')) = (Dict Locale_code_count, []) \<and>
   get_count_metadata School_counts_lookup (Some (ascii ''urban'')) = (Dict Urban_code_count, []) \<and>
   get_count_metadata School_counts_lookup (Some (ascii ''status'')) = (Dict Status_code_count, []) \<and>
   (length s = 2 \<longrightarrow>
      deref (snd (City_get_or_create st c s)) Counts_city = count_up (deref st Counts_city) c \<and>
      deref (snd (City_get_or_create st c s)) Counts_state = count_up (deref st Counts_state) s)"
  by (simp add: get_count_metadata_def City_counts_lookup_def School_counts_lookup_def
      City_get_or_create_counts ascii_def)

theorem get_count_metadata_total_witness:
  "map_of School_counts_lookup (ascii ''metro'') = None \<and>
   fst (get_count_metadata School_counts_lookup (Some (ascii ''metro''))) = List [] \<and>
   length (snd (get_count_metadata School_counts_lookup (Some (ascii ''metro'')))) = 1 \<and>
   map_of City_counts_lookup (ascii ''state'') = Some Counts_state \<and>
   get_count_metadata City_counts_lookup (Some (ascii ''state'')) = (Dict Counts_state, []) \<and>
   deref (snd (City_get_or_create initial_state (ascii ''Salem'') (ascii ''OR''))) Counts_state = [(ascii ''OR'', 1)]"
proof -
  note inst1 = get_count_metadata_total[where counts_lookup = School_counts_lookup
      and n = "ascii ''metro''" and s = "ascii ''OR''" and st = initial_state and c = "ascii ''Salem''"]
  note inst2 = get_count_metadata_total[where counts_lookup = City_counts_lookup
      and n = "ascii ''state''" and s = "ascii ''OR''" and st = initial_state and c = "ascii ''Salem''"]
  have a: "map_of School_counts_lookup (ascii ''metro'') = None"
    by (simp add: School_counts_lookup_def ascii_def)
  have b: "map_of City_counts_lookup (ascii ''state'') = Some Counts_state"
    by (simp add: City_counts_lookup_def ascii_def)
  have l: "length (ascii ''OR'') = 2" by (simp add: ascii_def)
  from inst1 a have 1: "fst (get_count_metadata School_counts_lookup (Some (ascii ''metro''))) = List []"
    by blast
  from inst1 a obtain message where
    "snd (get_count_metadata School_counts_lookup (Some (ascii ''metro''))) = [(WARNING, message)]"
    by blast
  then have 2: "length (snd (get_count_metadata School_counts_lookup (Some (ascii ''metro'')))) = 1"
    by simp
  from inst2 b have 3: "get_count_metadata City_counts_lookup (Some (ascii ''state'')) = (Dict Counts_state, [])"
    by blast
  from inst1 l have "deref (snd (City_get_or_create initial_state (ascii ''Salem'') (ascii ''OR''))) Counts_state
      = count_up (deref initial_state Counts_state) (ascii ''OR'')" by blast
  then have 4: "deref (snd (City_get_or_create initial_state (ascii ''Salem'') (ascii ''OR''))) Counts_state = [(ascii ''OR'', 1)]"
    by (simp add: initial_state_def count_up_def)
  from a 1 2 b 3 4 show ?thesis by blast
qed

lemma City_get_or_create_list:
  assumes "length s = 2"
  shows "City_class_obj_list (snd (City_get_or_create st c s))
           = (if filter (\<lambda>obj. city obj = c \<and> state obj = s) (City_class_obj_list st) = []
              then City_class_obj_list st
                     @ [\<lparr>oid = length (City_class_obj_list st), city = c, state = s\<rparr>]
              else City_class_obj_list st)"
  using assms by (simp add: City_get_or_create_def City_init_def City_search Let_def)

lemma City_get_or_create_result:
  assumes "length s = 2"
  shows "fst (City_get_or_create st c s)
           = Inr (if filter (\<lambda>obj. city obj = c \<and> state obj = s) (City_class_obj_list st) = []
                  then \<lparr>oid = length (City_class_obj_list st), city = c, state = s\<rparr>
                  else hd (filter (\<lambda>obj. city obj = c \<and> state obj = s) (City_class_obj_list st)))"
  using assms by (simp add: City_get_or_create_def City_init_def City_search Let_def)

lemma Agency_get_or_create_list:
  "Agency_class_obj_list (snd (Agency_get_or_create st i n))
     = (if filter (\<lambda>obj. agency_id obj = i \<and> agency_name obj = n) (Agency_class_obj_list st) = []
        then Agency_class_obj_list st
               @ [\<lparr>agency_oid = length (Agency_class_obj_list st), agency_id = i, agency_name = n\<rparr>]
        else Agency_class_obj_list st)"
  by (simp add: Agency_get_or_create_def Agency_init_def Agency_search Let_def)

lemma Agency_get_or_create_result:
  "fst (Agency_get_or_create st i n)
     = (if filter (\<lambda>obj. agency_id obj = i \<and> agency_name obj = n) (Agency_class_obj_list st) = []
        then \<lparr>agency_oid = length (Agency_class_obj_list st), agency_id = i, agency_name = n\<rparr>
        else hd (filter (\<lambda>obj. agency_id obj = i \<and> agency_name obj = n) (Agency_class_obj_list st)))"
  by (simp add: Agency_get_or_create_def Agency_init_def Agency_search Let_def)

text \<open>The first match of a list that has one is the first match of every extension.\<close>

lemma hd_filter_append:
  "filter P xs \<noteq> [] \<Longrightarrow> filter P (xs @ ys) \<noteq> [] \<and> hd (filter P (xs @ ys)) = hd (filter P xs)"
  by simp

lemma run_call_city_extends:
  "\<exists>ys. City_class_obj_list (run_call st k) = City_class_obj_list st @ ys"
proof (cases k)
  case (City_call c s)
  then show ?thesis
    by (cases "length s = 2")
       (simp_all add: City_get_or_create_list City_get_or_create_invalid)
next
  case (Agency_call i n)
  then show ?thesis by (simp add: Agency_get_or_create_other)
qed

lemma run_call_agency_extends:
  "\<exists>ys. Agency_class_obj_list (run_call st k) = Agency_class_obj_list st @ ys"
proof (cases k)
  case (City_call c s)
  then show ?thesis by (simp add: City_get_or_create_other)
next
  case (Agency_call i n)
  then show ?thesis by (simp add: Agency_get_or_create_list)
qed

lemma run_calls_city_extends:
  "\<exists>ys. City_class_obj_list (run_calls st calls) = City_class_obj_list st @ ys"
proof (induction calls rule: rev_induct)
  case Nil
  then show ?case by (simp add: run_calls_Nil)
next
  case (snoc k calls)
  then obtain ys where "City_class_obj_list (run_calls st calls) = City_class_obj_list st @ ys"
    by blast
  moreover obtain zs where "City_class_obj_list (run_call (run_calls st calls) k)
      = City_class_obj_list (run_calls st calls) @ zs"
    using run_call_city_extends by blast
  ultimately show ?case by (simp add: run_calls_snoc)
qed

lemma run_calls_agency_extends:
  "\<exists>ys. Agency_class_obj_list (run_calls st calls) = Agency_class_obj_list st @ ys"
proof (induction calls rule: rev_induct)
  case Nil
  then show ?case by (simp add: run_calls_Nil)
next
  case (snoc k calls)
  then obtain ys where "Agency_class_obj_list (run_calls st calls) = Agency_class_obj_list st @ ys"
    by blast
  moreover obtain zs where "Agency_class_obj_list (run_call (run_calls st calls) k)
      = Agency_class_obj_list (run_calls st calls) @ zs"
    using run_call_agency_extends by blast
  ultimately show ?case by (simp add: run_calls_snoc)
qed

lemma City_get_or_create_registered:
  assumes "length s = 2"
  shows "filter (\<lambda>obj. city obj = c \<and> state obj = s)
           (City_class_obj_list (snd (City_get_or_create st c s))) \<noteq> [] \<and>
         Inr (hd (filter (\<lambda>obj. city obj = c \<and> state obj = s)
           (City_class_obj_list (snd (City_get_or_create st c s))))) = fst (City_get_or_create st c s)"
  using assms by (simp add: City_get_or_create_list City_get_or_create_result)

lemma Agency_get_or_create_registered:
  "filter (\<lambda>obj. agency_id obj = i \<and> agency_name obj = n)
     (Agency_class_obj_list (snd (Agency_get_or_create st i n))) \<noteq> [] \<and>
   hd (filter (\<lambda>obj. agency_id obj = i \<and> agency_name obj = n)
     (Agency_class_obj_list (snd (Agency_get_or_create st i n)))) = fst (Agency_get_or_create st i n)"
  by (simp add: Agency_get_or_create_list Agency_get_or_create_result)

lemma City_get_or_create_again:
  assumes "length s = 2"
  shows "fst (City_get_or_create (run_calls (snd (City_get_or_create st c s)) between) c s)
           = fst (City_get_or_create st c s)"
proof -
  let ?P = "\<lambda>obj. city obj = c \<and> state obj = s"
  let ?st1 = "snd (City_get_or_create st c s)"
  obtain ys where ext: "City_class_obj_list (run_calls ?st1 between) = City_class_obj_list ?st1 @ ys"
    using run_calls_city_extends by blast
  from City_get_or_create_registered[OF assms, of c st]
  have ne: "filter ?P (City_class_obj_list ?st1) \<noteq> []"
    and hd: "Inr (hd (filter ?P (City_class_obj_list ?st1))) = fst (City_get_or_create st c s)"
    by blast+
  from hd_filter_append[OF ne, of ys] ext
  have "filter ?P (City_class_obj_list (run_calls ?st1 between)) \<noteq> []"
    and "hd (filter ?P (City_class_obj_list (run_calls ?st1 between)))
          = hd (filter ?P (City_class_obj_list ?st1))"
    by simp_all
  with hd show ?thesis
    by (simp add: City_get_or_create_result[OF assms])
qed

lemma Agency_get_or_create_again:
  "fst (Agency_get_or_create (run_calls (snd (Agency_get_or_create st i n)) between) i n)
     = fst (Agency_get_or_create st i n)"
proof -
  let ?P = "\<lambda>obj. agency_id obj = i \<and> agency_name obj = n"
  let ?st1 = "snd (Agency_get_or_create st i n)"
  obtain ys where ext: "Agency_class_obj_list (run_calls ?st1 between) = Agency_class_obj_list ?st1 @ ys"
    using run_calls_agency_extends by blast
  from Agency_get_or_create_registered[of i n st]
  have ne: "filter ?P (Agency_class_obj_list ?st1) \<noteq> []"
    and hd: "hd (filter ?P (Agency_class_obj_list ?st1)) = fst (Agency_get_or_create st i n)"
    by blast+
  from hd_filter_append[OF ne, of ys] ext
  have "filter ?P (Agency_class_obj_list (run_calls ?st1 between)) \<noteq> []"
    and "hd (filter ?P (Agency_class_obj_list (run_calls ?st1 between)))
          = hd (filter ?P (Agency_class_obj_list ?st1))"
    by simp_all
  with hd show ?thesis
    by (simp add: Agency_get_or_create_result)
qed

lemma filter_empty_not_in_image:
  "filter (\<lambda>obj. f obj = a \<and> g obj = b) objs = [] \<Longrightarrow> (a, b) \<notin> set (map (\<lambda>obj. (f obj, g obj)) objs)"
  by (auto simp: filter_empty_conv)

lemma registry_inv_City:
  assumes "registry_inv st"
  shows "registry_inv (snd (City_get_or_create st c s))"
proof (cases "length s = 2")
  case False
  with assms show ?thesis by (simp add: City_get_or_create_invalid)
next
  case True
  show ?thesis
  proof (cases "filter (\<lambda>obj. city obj = c \<and> state obj = s) (City_class_obj_list st) = []")
    case False
    with assms True show ?thesis
      by (simp add: registry_inv_def City_get_or_create_list City_get_or_create_other)
  next
    case e: True
    from filter_empty_not_in_image[OF e]
    have "(c, s) \<notin> set (map (\<lambda>obj. (city obj, state obj)) (City_class_obj_list st))" .
    with assms True e show ?thesis
      by (simp add: registry_inv_def City_get_or_create_list City_get_or_create_other)
  qed
qed

lemma registry_inv_Agency:
  assumes "registry_inv st"
  shows "registry_inv (snd (Agency_get_or_create st i n))"
proof (cases "filter (\<lambda>obj. agency_id obj = i \<and> agency_name obj = n) (Agency_class_obj_list st) = []")
  case False
  with assms show ?thesis
    by (simp add: registry_inv_def Agency_get_or_create_list Agency_get_or_create_other)
next
  case e: True
  from filter_empty_not_in_image[OF e]
  have "(i, n) \<notin> set (map (\<lambda>obj. (agency_id obj, agency_name obj)) (Agency_class_obj_list st))" .
  with assms e show ?thesis
    by (simp add: registry_inv_def Agency_get_or_create_list Agency_get_or_create_other)
qed

lemma registry_inv_initial: "registry_inv initial_state"
  by (simp add: registry_inv_def initial_state_def)

lemma registry_inv_run_calls:
  "registry_inv st \<Longrightarrow> registry_inv (run_calls st calls)"
proof (induction calls rule: rev_induct)
  case Nil
  then show ?case by (simp add: run_calls_Nil)
next
  case (snoc k calls)
  then show ?case
    by (cases k) (simp_all add: run_calls_snoc registry_inv_City registry_inv_Agency)
qed

lemma School_init_valid:
  assumes "length s = 2"
  shows "School_init pi pf st sid aid an nm c s la lo lc uc sc =
    (let st1 = snd (Agency_get_or_create st aid an);
         st2 = snd (City_get_or_create st1 c s);
         l = find_val LocaleCodes_members (case pi lc of None \<Rightarrow> Inl lc | Some x \<Rightarrow> Inr x);
         u = find_val UrbanLocaleCodes_members (case pi uc of None \<Rightarrow> Inl uc | Some x \<Rightarrow> Inr x);
         t = find_val SchoolStatusCodes_members (case pi sc of None \<Rightarrow> Inl sc | Some x \<Rightarrow> Inr x)
     in (Inr \<lparr>school_id = sid, school_name = nm,
               school_agency = fst (Agency_get_or_create st aid an),
               school_city = projr (fst (City_get_or_create st1 c s)),
               lat = (case pf la of None \<Rightarrow> Inl la | Some x \<Rightarrow> Inr x),
               long = (case pf lo of None \<Rightarrow> Inl lo | Some x \<Rightarrow> Inr x),
               locale_code = l, urban_code = u, status_code = t\<rparr>,
         st2\<lparr>School_locale_code_count :=
                increment_count_metadata LocaleCodes_name l (School_locale_code_count st2),
             School_urban_code_count :=
                increment_count_metadata UrbanLocaleCodes_name u (School_urban_code_count st2),
             School_status_code_count :=
                increment_count_metadata SchoolStatusCodes_name t (School_status_code_count st2)\<rparr>))"
proof -
  obtain ag st1 where a: "Agency_get_or_create st aid an = (ag, st1)" by (cases "Agency_get_or_create st aid an")
  from City_get_or_create_result[OF assms, of st1 c]
  obtain ci st2 where b: "City_get_or_create st1 c s = (Inr ci, st2)"
    by (cases "City_get_or_create st1 c s") auto
  show ?thesis
    by (simp add: School_init_def a b convert_type_default Let_def)
qed

lemma School_init_lists:
  "City_class_obj_list (snd (School_init pi pf st sid aid an nm c s la lo lc uc sc))
     = City_class_obj_list (snd (City_get_or_create (snd (Agency_get_or_create st aid an)) c s))"
  "Agency_class_obj_list (snd (School_init pi pf st sid aid an nm c s la lo lc uc sc))
     = Agency_class_obj_list (snd (Agency_get_or_create st aid an))"
  by (cases "length s = 2";
      simp add: School_init_valid School_init_invalid City_get_or_create_invalid
        City_get_or_create_other Let_def)+

lemma registry_inv_lists:
  "City_class_obj_list st' = City_class_obj_list st \<Longrightarrow>
   Agency_class_obj_list st' = Agency_class_obj_list st \<Longrightarrow>
   registry_inv st' = registry_inv st"
  by (simp add: registry_inv_def)

lemma registry_inv_School:
  assumes "registry_inv st"
  shows "registry_inv (snd (School_init pi pf st sid aid an nm c s la lo lc uc sc))"
proof -
  let ?st2 = "snd (City_get_or_create (snd (Agency_get_or_create st aid an)) c s)"
  have "registry_inv ?st2"
    using assms by (intro registry_inv_City registry_inv_Agency)
  moreover have "registry_inv (snd (School_init pi pf st sid aid an nm c s la lo lc uc sc))
      = registry_inv ?st2"
    by (rule registry_inv_lists) (simp_all add: School_init_lists City_get_or_create_other)
  ultimately show ?thesis by simp
qed

lemma School_init_error:
  assumes "School_init pi pf st sid aid an nm c s la lo lc uc sc = (Inl e, st')"
  shows "length s \<noteq> 2 \<and> e = ValueError \<and>
         School_locale_code_count st' = School_locale_code_count st \<and>
         School_urban_code_count st' = School_urban_code_count st \<and>
         School_status_code_count st' = School_status_code_count st"
proof (cases "length s = 2")
  case True
  with assms show ?thesis by (simp add: School_init_valid Let_def)
next
  case False
  with assms show ?thesis
    by (auto simp: School_init_invalid Agency_get_or_create_other)
qed

lemma School_init_tallies:
  assumes "School_init pi pf st sid aid an nm c s la lo lc uc sc = (Inr sch, st')"
  shows "locale_code sch = (case pi lc of None \<Rightarrow> None | Some x \<Rightarrow> map_of LocaleCodes_members x)"
    and "urban_code sch = (case pi uc of None \<Rightarrow> None | Some x \<Rightarrow> map_of UrbanLocaleCodes_members x)"
    and "status_code sch = (case pi sc of None \<Rightarrow> None | Some x \<Rightarrow> map_of SchoolStatusCodes_members x)"
    and "School_locale_code_count st'
           = increment_count_metadata LocaleCodes_name (locale_code sch) (School_locale_code_count st)"
    and "School_urban_code_count st'
           = increment_count_metadata UrbanLocaleCodes_name (urban_code sch) (School_urban_code_count st)"
    and "School_status_code_count st'
           = increment_count_metadata SchoolStatusCodes_name (status_code sch) (School_status_code_count st)"
proof -
  have v: "length s = 2"
  proof (rule ccontr)
    assume "length s \<noteq> 2"
    with assms show False by (simp add: School_init_invalid)
  qed
  note eq = assms[unfolded School_init_valid[OF v] Let_def, simplified]
  from eq have sch: "locale_code sch = find_val LocaleCodes_members (case pi lc of None \<Rightarrow> Inl lc | Some x \<Rightarrow> Inr x)"
    "urban_code sch = find_val UrbanLocaleCodes_members (case pi uc of None \<Rightarrow> Inl uc | Some x \<Rightarrow> Inr x)"
    "status_code sch = find_val SchoolStatusCodes_members (case pi sc of None \<Rightarrow> Inl sc | Some x \<Rightarrow> Inr x)"
    by auto
  from sch show "locale_code sch = (case pi lc of None \<Rightarrow> None | Some x \<Rightarrow> map_of LocaleCodes_members x)"
    by (simp add: find_val_def split: option.splits)
  from sch show "urban_code sch = (case pi uc of None \<Rightarrow> None | Some x \<Rightarrow> map_of UrbanLocaleCodes_members x)"
    by (simp add: find_val_def split: option.splits)
  from sch show "status_code sch = (case pi sc of None \<Rightarrow> None | Some x \<Rightarrow> map_of SchoolStatusCodes_members x)"
    by (simp add: find_val_def split: option.splits)
  from eq sch show "School_locale_code_count st'
           = increment_count_metadata LocaleCodes_name (locale_code sch) (School_locale_code_count st)"
    by (auto simp: City_get_or_create_other Agency_get_or_create_other)
  from eq sch show "School_urban_code_count st'
           = increment_count_metadata UrbanLocaleCodes_name (urban_code sch) (School_urban_code_count st)"
    by (auto simp: City_get_or_create_other Agency_get_or_create_other)
  from eq sch show "School_status_code_count st'
           = increment_count_metadata SchoolStatusCodes_name (status_code sch) (School_status_code_count st)"
    by (auto simp: City_get_or_create_other Agency_get_or_create_other)
qed

lemma count_of_increment:
  "count_of (increment_count_metadata name_of code d) k
     = count_of d k + (if map_option name_of code = Some k then 1 else 0)"
  by (cases code) (auto simp: increment_count_metadata_def count_of_count_up)

lemma sum_increment:
  "sum_list (map snd (increment_count_metadata name_of code d))
     = sum_list (map snd d) + (if code = None then 0 else 1)"
  by (cases code) (simp_all add: increment_count_metadata_def sum_count_up)

lemma School_init_as_calls:
  "City_class_obj_list (snd (School_init pi pf st sid aid an nm c s la lo lc uc sc))
     = City_class_obj_list (run_calls st [Agency_call aid an, City_call c s])"
  "Agency_class_obj_list (snd (School_init pi pf st sid aid an nm c s la lo lc uc sc))
     = Agency_class_obj_list (run_calls st [Agency_call aid an, City_call c s])"
  by (simp_all add: School_init_lists run_calls_def City_get_or_create_other)

lemma School_init_extends:
  "\<exists>ys. City_class_obj_list (snd (School_init pi pf st sid aid an nm c s la lo lc uc sc))
          = City_class_obj_list st @ ys"
  "\<exists>ys. Agency_class_obj_list (snd (School_init pi pf st sid aid an nm c s la lo lc uc sc))
          = Agency_class_obj_list st @ ys"
  by (simp_all only: School_init_as_calls run_calls_city_extends run_calls_agency_extends)

lemma School_init_members:
  assumes "School_init pi pf st sid aid an nm c s la lo lc uc sc = (Inr sch, st')"
  shows "school_city sch \<in> set (City_class_obj_list st')"
    and "school_agency sch \<in> set (Agency_class_obj_list st')"
proof -
  have v: "length s = 2"
  proof (rule ccontr)
    assume "length s \<noteq> 2"
    with assms show False by (simp add: School_init_invalid)
  qed
  let ?st1 = "snd (Agency_get_or_create st aid an)"
  let ?st2 = "snd (City_get_or_create ?st1 c s)"
  let ?P = "\<lambda>obj. city obj = c \<and> state obj = s"
  let ?Q = "\<lambda>obj. agency_id obj = aid \<and> agency_name obj = an"
  note eq = assms[unfolded School_init_valid[OF v] Let_def, simplified]
  from eq have ci: "school_city sch = projr (fst (City_get_or_create ?st1 c s))"
    and ag: "school_agency sch = fst (Agency_get_or_create st aid an)" by auto
  have "City_class_obj_list (snd (School_init pi pf st sid aid an nm c s la lo lc uc sc))
          = City_class_obj_list ?st2"
    by (rule School_init_lists)
  then have l1: "City_class_obj_list st' = City_class_obj_list ?st2"
    by (simp only: assms snd_conv)
  have "Agency_class_obj_list (snd (School_init pi pf st sid aid an nm c s la lo lc uc sc))
          = Agency_class_obj_list ?st1"
    by (rule School_init_lists)
  then have l2: "Agency_class_obj_list st' = Agency_class_obj_list ?st1"
    by (simp only: assms snd_conv)
  from City_get_or_create_registered[OF v, of c ?st1]
  have ne: "filter ?P (City_class_obj_list ?st2) \<noteq> []"
    and r: "Inr (hd (filter ?P (City_class_obj_list ?st2))) = fst (City_get_or_create ?st1 c s)"
    by blast+
  from r[symmetric] have "projr (fst (City_get_or_create ?st1 c s))
      = hd (filter ?P (City_class_obj_list ?st2))" by simp
  moreover from hd_in_set[OF ne] have "hd (filter ?P (City_class_obj_list ?st2))
      \<in> set (City_class_obj_list ?st2)" by simp
  ultimately show "school_city sch \<in> set (City_class_obj_list st')"
    by (simp only: ci l1)
  from Agency_get_or_create_registered[of aid an st]
  have ne': "filter ?Q (Agency_class_obj_list ?st1) \<noteq> []"
    and r': "hd (filter ?Q (Agency_class_obj_list ?st1)) = fst (Agency_get_or_create st aid an)"
    by blast+
  from hd_in_set[OF ne'] have "hd (filter ?Q (Agency_class_obj_list ?st1))
      \<in> set (Agency_class_obj_list ?st1)" by simp
  then show "school_agency sch \<in> set (Agency_class_obj_list st')"
    by (simp only: ag l2 r')
qed

text \<open>What one round of the loading loop does to the state and the list of schools.\<close>

lemma read_line_cases:
  assumes "read_line pi pf (st, schools) line = (raised, st', schools')"
  obtains (skipped) "st' = st" "schools' = schools"
  | (failed) sid aid an nm c s la lo lc uc sc e where
      "School_init pi pf st sid aid an nm c s la lo lc uc sc = (Inl e, st')" "schools' = schools"
  | (built) sid aid an nm c s la lo lc uc sc sch where
      "School_init pi pf st sid aid an nm c s la lo lc uc sc = (Inr sch, st')"
      "schools' = schools @ [sch]"
  using assms
  by (auto simp: read_line_def split: if_splits prod.splits sum.splits)

lemma load_csv_preserves:
  assumes step: "\<And>st schools line raised st' schools'.
      P (st, schools) \<Longrightarrow> read_line pi pf (st, schools) line = (raised, st', schools')
        \<Longrightarrow> P (st', schools')"
    and start: "P ds"
  shows "P (load_csv pi pf ds lines)"
  using start
proof (induction lines arbitrary: ds)
  case Nil
  then show ?case by simp
next
  case (Cons line lines)
  obtain st schools where ds: "ds = (st, schools)" by (cases ds)
  obtain raised st' schools' where r: "read_line pi pf (st, schools) line = (raised, st', schools')"
    by (cases "read_line pi pf (st, schools) line") auto
  from step[OF Cons.prems[unfolded ds] r] have "P (st', schools')" .
  from Cons.IH[OF this] ds r show ?case by simp
qed

lemma load_csv_registry:
  "registry_inv (fst (load_csv pi pf (initial_state, []) lines)) \<and>
   (\<forall>x \<in> set (snd (load_csv pi pf (initial_state, []) lines)).
      school_city x \<in> set (City_class_obj_list (fst (load_csv pi pf (initial_state, []) lines))) \<and>
      school_agency x \<in> set (Agency_class_obj_list (fst (load_csv pi pf (initial_state, []) lines))))"
proof -
  let ?P = "\<lambda>ds. registry_inv (fst ds) \<and>
     (\<forall>x \<in> set (snd ds). school_city x \<in> set (City_class_obj_list (fst ds)) \<and>
        school_agency x \<in> set (Agency_class_obj_list (fst ds)))"
  have "?P (load_csv pi pf (initial_state, []) lines)"
  proof (rule load_csv_preserves[where P = ?P])
    show "?P (initial_state, [])" by (simp add: registry_inv_initial)
  next
    fix st schools line raised st' schools'
    assume inv: "?P (st, schools)"
      and r: "read_line pi pf (st, schools) line = (raised, st', schools')"
    from r show "?P (st', schools')"
    proof (cases rule: read_line_cases)
      case skipped
      with inv show ?thesis by simp
    next
      case (failed sid aid an nm c s la lo lc uc sc e)
      from registry_inv_School[of st pi pf sid aid an nm c s la lo lc uc sc] inv failed(1)
      have 1: "registry_inv st'" by simp
      from School_init_extends[of pi pf st sid aid an nm c s la lo lc uc sc] failed(1)
      obtain ys zs where "City_class_obj_list st' = City_class_obj_list st @ ys"
        "Agency_class_obj_list st' = Agency_class_obj_list st @ zs" by auto
      with inv failed(2) 1 show ?thesis by auto
    next
      case (built sid aid an nm c s la lo lc uc sc sch)
      from registry_inv_School[of st pi pf sid aid an nm c s la lo lc uc sc] inv built(1)
      have 1: "registry_inv st'" by simp
      from School_init_extends[of pi pf st sid aid an nm c s la lo lc uc sc] built(1)
      obtain ys zs where "City_class_obj_list st' = City_class_obj_list st @ ys"
        "Agency_class_obj_list st' = Agency_class_obj_list st @ zs" by auto
      with inv built(2) 1 School_init_members[OF built(1)] show ?thesis by auto
    qed
  qed
  then show ?thesis .
qed

lemma distinct_map_eq:
  "distinct (map f xs) \<Longrightarrow> x \<in> set xs \<Longrightarrow> y \<in> set xs \<Longrightarrow> f x = f y \<Longrightarrow> x = y"
  by (meson distinct_map inj_on_def)

lemma hd_filter_holds: "filter P xs \<noteq> [] \<Longrightarrow> P (hd (filter P xs)) \<and> hd (filter P xs) \<in> set xs"
proof -
  assume ne: "filter P xs \<noteq> []"
  from hd_in_set[OF ne] show ?thesis by simp
qed

lemma distinct_filter_key:
  "distinct (map f xs) \<Longrightarrow> length (filter (\<lambda>x. f x = k) xs) \<le> 1"
proof (induction xs)
  case Nil
  then show ?case by simp
next
  case (Cons x xs)
  show ?case
  proof (cases "f x = k")
    case True
    from Cons.prems have "f x \<notin> f ` set xs" by simp
    with True have "\<forall>y \<in> set xs. f y \<noteq> k" by (blast intro: rev_image_eqI)
    then have "filter (\<lambda>x. f x = k) xs = []" by (simp add: filter_empty_conv)
    with True show ?thesis by simp
  next
    case False
    with Cons show ?thesis by simp
  qed
qed

lemma oid_is_index:
  assumes "map f xs = [0..<length xs]" and "a \<in> set xs"
  shows "f a < length xs \<and> xs ! f a = a"
proof -
  from assms(2) obtain k where k: "k < length xs" "xs ! k = a"
    by (auto simp: in_set_conv_nth)
  from assms(1) k(1) have "map f xs ! k = [0..<length xs] ! k" by simp
  with k have "f a = k" by simp
  with k show ?thesis by simp
qed

lemma City_get_or_create_facts:
  assumes v: "length s = 2"
  shows "\<exists>a. fst (City_get_or_create st c s) = Inr a \<and>
           a \<in> set (City_class_obj_list (snd (City_get_or_create st c s))) \<and>
           city a = c \<and> state a = s \<and>
           fst (City_get_or_create (run_calls (snd (City_get_or_create st c s)) between) c s) = Inr a \<and>
           City_class_obj_list
             (snd (City_get_or_create (run_calls (snd (City_get_or_create st c s)) between) c s))
             = City_class_obj_list (run_calls (snd (City_get_or_create st c s)) between)"
proof -
  let ?P = "\<lambda>obj. city obj = c \<and> state obj = s"
  let ?st1 = "snd (City_get_or_create st c s)"
  let ?st2 = "run_calls ?st1 between"
  let ?a = "hd (filter ?P (City_class_obj_list ?st1))"
  from City_get_or_create_registered[OF v, of c st]
  have ne: "filter ?P (City_class_obj_list ?st1) \<noteq> []"
    and r: "fst (City_get_or_create st c s) = Inr ?a"
    by simp_all
  from hd_filter_holds[OF ne] have m: "?a \<in> set (City_class_obj_list ?st1)"
    and p: "city ?a = c" "state ?a = s" by simp_all
  from City_get_or_create_again[OF v, of st c between] r
  have again: "fst (City_get_or_create ?st2 c s) = Inr ?a" by simp
  obtain ys where "City_class_obj_list ?st2 = City_class_obj_list ?st1 @ ys"
    using run_calls_city_extends by blast
  with ne have "filter ?P (City_class_obj_list ?st2) \<noteq> []" by simp
  then have same: "City_class_obj_list (snd (City_get_or_create ?st2 c s)) = City_class_obj_list ?st2"
    by (simp add: City_get_or_create_list[OF v])
  from r m p again same show ?thesis by blast
qed

lemma Agency_get_or_create_facts:
  "fst (Agency_get_or_create st i n)
     \<in> set (Agency_class_obj_list (snd (Agency_get_or_create st i n))) \<and>
   agency_id (fst (Agency_get_or_create st i n)) = i \<and>
   agency_name (fst (Agency_get_or_create st i n)) = n \<and>
   fst (Agency_get_or_create (run_calls (snd (Agency_get_or_create st i n)) between) i n)
     = fst (Agency_get_or_create st i n) \<and>
   Agency_class_obj_list
     (snd (Agency_get_or_create (run_calls (snd (Agency_get_or_create st i n)) between) i n))
     = Agency_class_obj_list (run_calls (snd (Agency_get_or_create st i n)) between)"
proof -
  let ?P = "\<lambda>obj. agency_id obj = i \<and> agency_name obj = n"
  let ?st1 = "snd (Agency_get_or_create st i n)"
  let ?st2 = "run_calls ?st1 between"
  let ?a = "hd (filter ?P (Agency_class_obj_list ?st1))"
  from Agency_get_or_create_registered[of i n st]
  have ne: "filter ?P (Agency_class_obj_list ?st1) \<noteq> []"
    and r: "fst (Agency_get_or_create st i n) = ?a"
    by simp_all
  from hd_filter_holds[OF ne] have m: "?a \<in> set (Agency_class_obj_list ?st1)"
    and p: "agency_id ?a = i" "agency_name ?a = n" by simp_all
  obtain ys where "Agency_class_obj_list ?st2 = Agency_class_obj_list ?st1 @ ys"
    using run_calls_agency_extends by blast
  with ne have "filter ?P (Agency_class_obj_list ?st2) \<noteq> []" by simp
  then have same: "Agency_class_obj_list (snd (Agency_get_or_create ?st2 i n))
      = Agency_class_obj_list ?st2"
    by (simp add: Agency_get_or_create_list)
  from r m p same Agency_get_or_create_again[of st i n between] show ?thesis by simp
qed

lemma City_one_instance:
  assumes v: "length s = 2" and inv: "registry_inv st"
  shows "length (filter (\<lambda>obj. city obj = c \<and> state obj = s)
           (City_class_obj_list (snd (City_get_or_create st c s)))) = 1"
proof -
  let ?l = "City_class_obj_list (snd (City_get_or_create st c s))"
  from registry_inv_City[OF inv, of c s]
  have "distinct (map (\<lambda>obj. (city obj, state obj)) ?l)" by (simp add: registry_inv_def)
  from distinct_filter_key[OF this, of "(c, s)"]
  have "length (filter (\<lambda>obj. city obj = c \<and> state obj = s) ?l) \<le> 1" by simp
  moreover from City_get_or_create_registered[OF v, of c st]
  have "filter (\<lambda>obj. city obj = c \<and> state obj = s) ?l \<noteq> []" by simp
  then have "length (filter (\<lambda>obj. city obj = c \<and> state obj = s) ?l) \<noteq> 0" by simp
  ultimately show ?thesis by linarith
qed

lemma Agency_one_instance:
  assumes inv: "registry_inv st"
  shows "length (filter (\<lambda>obj. agency_id obj = i \<and> agency_name obj = n)
           (Agency_class_obj_list (snd (Agency_get_or_create st i n)))) = 1"
proof -
  let ?l = "Agency_class_obj_list (snd (Agency_get_or_create st i n))"
  from registry_inv_Agency[OF inv, of i n]
  have "distinct (map (\<lambda>obj. (agency_id obj, agency_name obj)) ?l)" by (simp add: registry_inv_def)
  from distinct_filter_key[OF this, of "(i, n)"]
  have "length (filter (\<lambda>obj. agency_id obj = i \<and> agency_name obj = n) ?l) \<le> 1" by simp
  moreover from Agency_get_or_create_registered[of i n st]
  have "filter (\<lambda>obj. agency_id obj = i \<and> agency_name obj = n) ?l \<noteq> []" by simp
  then have "length (filter (\<lambda>obj. agency_id obj = i \<and> agency_name obj = n) ?l) \<noteq> 0" by simp
  ultimately show ?thesis by linarith
qed

text \<open>
  Claim C5. A call of \<open>get_or_create\<close> of City (with a state of 2 characters) or of Agency
  returns an instance that is registered in the class's \<open>class_obj_list\<close> and has the
  fields asked for. The same call made again, directly or after any other calls, returns
  that same instance and registers nothing. In every state reached from the initial one
  an instance stands in the registry at the place its identity number names, so equal
  numbers mean the same object, and after a call exactly one registered instance has the
  identity asked for. The same holds after loading records: schools that name the same
  city and state hold the same City instance, and likewise for agencies.
\<close>

theorem get_or_create_same_instance:
  "(length s = 2 \<longrightarrow>
      (\<exists>a. fst (City_get_or_create st c s) = Inr a \<and>
           a \<in> set (City_class_obj_list (snd (City_get_or_create st c s))) \<and>
           city a = c \<and> state a = s \<and>
           fst (City_get_or_create (run_calls (snd (City_get_or_create st c s)) between) c s)
             = Inr a \<and>
           City_class_obj_list
             (snd (City_get_or_create (run_calls (snd (City_get_or_create st c s)) between) c s))
             = City_class_obj_list (run_calls (snd (City_get_or_create st c s)) between))) \<and>
   fst (Agency_get_or_create st i n)
     \<in> set (Agency_class_obj_list (snd (Agency_get_or_create st i n))) \<and>
   agency_id (fst (Agency_get_or_create st i n)) = i \<and>
   agency_name (fst (Agency_get_or_create st i n)) = n \<and>
   fst (Agency_get_or_create (run_calls (snd (Agency_get_or_create st i n)) between) i n)
     = fst (Agency_get_or_create st i n) \<and>
   Agency_class_obj_list
     (snd (Agency_get_or_create (run_calls (snd (Agency_get_or_create st i n)) between) i n))
     = Agency_class_obj_list (run_calls (snd (Agency_get_or_create st i n)) between) \<and>
   registry_inv (run_calls initial_state calls) \<and>
   (\<forall>a \<in> set (City_class_obj_list (run_calls initial_state calls)).
      City_class_obj_list (run_calls initial_state calls) ! oid a = a) \<and>
   (\<forall>a \<in> set (Agency_class_obj_list (run_calls initial_state calls)).
      Agency_class_obj_list (run_calls initial_state calls) ! agency_oid a = a) \<and>
   (length s = 2 \<longrightarrow>
      length (filter (\<lambda>obj. city obj = c \<and> state obj = s)
        (City_class_obj_list (snd (City_get_or_create (run_calls initial_state calls) c s)))) = 1) \<and>
   length (filter (\<lambda>obj. agency_id obj = i \<and> agency_name obj = n)
     (Agency_class_obj_list (snd (Agency_get_or_create (run_calls initial_state calls) i n)))) = 1 \<and>
   (load_csv pi pf (initial_state, []) lines = (st_end, schools) \<longrightarrow>
      registry_inv st_end \<and>
      (\<forall>x \<in> set schools. \<forall>y \<in> set schools.
         (city (school_city x) = city (school_city y) \<and>
          state (school_city x) = state (school_city y) \<longrightarrow> school_city x = school_city y) \<and>
         (agency_id (school_agency x) = agency_id (school_agency y) \<and>
          agency_name (school_agency x) = agency_name (school_agency y)
            \<longrightarrow> school_agency x = school_agency y)))"
proof -
  have reach: "registry_inv (run_calls initial_state calls)"
    by (rule registry_inv_run_calls[OF registry_inv_initial])
  have city: "length s = 2 \<longrightarrow>
      (\<exists>a. fst (City_get_or_create st c s) = Inr a \<and>
           a \<in> set (City_class_obj_list (snd (City_get_or_create st c s))) \<and>
           city a = c \<and> state a = s \<and>
           fst (City_get_or_create (run_calls (snd (City_get_or_create st c s)) between) c s)
             = Inr a \<and>
           City_class_obj_list
             (snd (City_get_or_create (run_calls (snd (City_get_or_create st c s)) between) c s))
             = City_class_obj_list (run_calls (snd (City_get_or_create st c s)) between))"
    using City_get_or_create_facts[of s st c between] by blast
  note agency = Agency_get_or_create_facts[of st i n between]
  have cidx: "\<forall>a \<in> set (City_class_obj_list (run_calls initial_state calls)).
      City_class_obj_list (run_calls initial_state calls) ! oid a = a"
  proof
    fix a assume m: "a \<in> set (City_class_obj_list (run_calls initial_state calls))"
    from reach have e: "map oid (City_class_obj_list (run_calls initial_state calls))
        = [0..<length (City_class_obj_list (run_calls initial_state calls))]"
      by (simp add: registry_inv_def)
    from oid_is_index[OF e m]
    show "City_class_obj_list (run_calls initial_state calls) ! oid a = a" by simp
  qed
  have aidx: "\<forall>a \<in> set (Agency_class_obj_list (run_calls initial_state calls)).
      Agency_class_obj_list (run_calls initial_state calls) ! agency_oid a = a"
  proof
    fix a assume m: "a \<in> set (Agency_class_obj_list (run_calls initial_state calls))"
    from reach have e: "map agency_oid (Agency_class_obj_list (run_calls initial_state calls))
        = [0..<length (Agency_class_obj_list (run_calls initial_state calls))]"
      by (simp add: registry_inv_def)
    from oid_is_index[OF e m]
    show "Agency_class_obj_list (run_calls initial_state calls) ! agency_oid a = a" by simp
  qed
  have cone: "length s = 2 \<longrightarrow>
      length (filter (\<lambda>obj. city obj = c \<and> state obj = s)
        (City_class_obj_list (snd (City_get_or_create (run_calls initial_state calls) c s)))) = 1"
    using City_one_instance[OF _ reach] by blast
  note aone = Agency_one_instance[OF reach, of i n]
  have loaded: "load_csv pi pf (initial_state, []) lines = (st_end, schools) \<longrightarrow>
      registry_inv st_end \<and>
      (\<forall>x \<in> set schools. \<forall>y \<in> set schools.
         (city (school_city x) = city (school_city y) \<and>
          state (school_city x) = state (school_city y) \<longrightarrow> school_city x = school_city y) \<and>
         (agency_id (school_agency x) = agency_id (school_agency y) \<and>
          agency_name (school_agency x) = agency_name (school_agency y)
            \<longrightarrow> school_agency x = school_agency y))"
  proof (intro impI conjI ballI)
    assume l: "load_csv pi pf (initial_state, []) lines = (st_end, schools)"
    from load_csv_registry[of pi pf lines] l
    have inv: "registry_inv st_end"
      and mem: "\<forall>x \<in> set schools. school_city x \<in> set (City_class_obj_list st_end) \<and>
                 school_agency x \<in> set (Agency_class_obj_list st_end)"
      by simp_all
    from inv show "registry_inv st_end" .
    fix x y
    assume x: "x \<in> set schools" and y: "y \<in> set schools"
    {
      assume "city (school_city x) = city (school_city y) \<and>
              state (school_city x) = state (school_city y)"
      then have "(\<lambda>obj. (city obj, state obj)) (school_city x)
               = (\<lambda>obj. (city obj, state obj)) (school_city y)" by simp
      moreover from inv have "distinct (map (\<lambda>obj. (city obj, state obj)) (City_class_obj_list st_end))"
        by (simp add: registry_inv_def)
      ultimately show "school_city x = school_city y"
        using mem x y by (intro distinct_map_eq[where f = "\<lambda>obj. (city obj, state obj)"
              and xs = "City_class_obj_list st_end"]) auto
    }
    {
      assume "agency_id (school_agency x) = agency_id (school_agency y) \<and>
              agency_name (school_agency x) = agency_name (school_agency y)"
      then have "(\<lambda>obj. (agency_id obj, agency_name obj)) (school_agency x)
               = (\<lambda>obj. (agency_id obj, agency_name obj)) (school_agency y)" by simp
      moreover from inv have "distinct (map (\<lambda>obj. (agency_id obj, agency_name obj)) (Agency_class_obj_list st_end))"
        by (simp add: registry_inv_def)
      ultimately show "school_agency x = school_agency y"
        using mem x y by (intro distinct_map_eq[where f = "\<lambda>obj. (agency_id obj, agency_name obj)"
              and xs = "Agency_class_obj_list st_end"]) auto
    }
  qed
  from city agency reach cidx aidx cone aone loaded show ?thesis by (intro conjI) blast+
qed

theorem get_or_create_same_instance_witness:
  "fst (City_get_or_create initial_state (ascii ''Springfield'') (ascii ''IL''))
     = Inr \<lparr>oid = 0, city = (ascii ''Springfield''), state = (ascii ''IL'')\<rparr> \<and>
   fst (City_get_or_create
          (run_calls (snd (City_get_or_create initial_state (ascii ''Springfield'') (ascii ''IL'')))
             [City_call (ascii ''Salem'') (ascii ''OR''), Agency_call (ascii ''A1'') (ascii ''District 1'')])
          (ascii ''Springfield'') (ascii ''IL''))
     = Inr \<lparr>oid = 0, city = (ascii ''Springfield''), state = (ascii ''IL'')\<rparr> \<and>
   school_city (snd (load_csv digits_to_int (\<lambda>v. None :: unit option) (initial_state, [])
     [[ascii ''1'', ascii ''A1'', ascii ''District 1'', ascii ''Lincoln Elementary'', ascii ''Springfield'', ascii ''IL'',
       ascii ''39.8'', ascii ''-89.6'', ascii ''1'', ascii ''11'', ascii ''1''],
      [ascii ''2'', ascii ''A1'', ascii ''District 1'', ascii ''Springfield High'', ascii ''Springfield'', ascii ''IL'',
       ascii ''39.7'', ascii ''-89.7'', ascii ''3'', ascii ''13'', ascii ''1'']]) ! 0)
     = school_city (snd (load_csv digits_to_int (\<lambda>v. None :: unit option) (initial_state, [])
     [[ascii ''1'', ascii ''A1'', ascii ''District 1'', ascii ''Lincoln Elementary'', ascii ''Springfield'', ascii ''IL'',
       ascii ''39.8'', ascii ''-89.6'', ascii ''1'', ascii ''11'', ascii ''1''],
      [ascii ''2'', ascii ''A1'', ascii ''District 1'', ascii ''Springfield High'', ascii ''Springfield'', ascii ''IL'',
       ascii ''39.7'', ascii ''-89.7'', ascii ''3'', ascii ''13'', ascii ''1'']]) ! 1)"
proof -
  let ?rows = "[[ascii ''1'', ascii ''A1'', ascii ''District 1'', ascii ''Lincoln Elementary'', ascii ''Springfield'', ascii ''IL'',
       ascii ''39.8'', ascii ''-89.6'', ascii ''1'', ascii ''11'', ascii ''1''],
      [ascii ''2'', ascii ''A1'', ascii ''District 1'', ascii ''Springfield High'', ascii ''Springfield'', ascii ''IL'',
       ascii ''39.7'', ascii ''-89.7'', ascii ''3'', ascii ''13'', ascii ''1'']]"
  let ?ds = "load_csv digits_to_int (\<lambda>v. None :: unit option) (initial_state, []) ?rows"
  let ?between = "[City_call (ascii ''Salem'') (ascii ''OR''), Agency_call (ascii ''A1'') (ascii ''District 1'')]"
  note inst = get_or_create_same_instance[where s = "ascii ''IL''" and st = initial_state
      and c = "ascii ''Springfield''" and between = ?between and pi = digits_to_int
      and pf = "\<lambda>v. None :: unit option" and lines = ?rows
      and st_end = "fst ?ds" and schools = "snd ?ds"]
  have v: "length (ascii ''IL'') = 2" by (simp add: ascii_def)
  have first: "fst (City_get_or_create initial_state (ascii ''Springfield'') (ascii ''IL''))
     = Inr \<lparr>oid = 0, city = (ascii ''Springfield''), state = (ascii ''IL'')\<rparr>" by code_simp
  from inst v obtain a where
    "fst (City_get_or_create initial_state (ascii ''Springfield'') (ascii ''IL'')) = Inr a"
    "fst (City_get_or_create
          (run_calls (snd (City_get_or_create initial_state (ascii ''Springfield'') (ascii ''IL''))) ?between)
          (ascii ''Springfield'') (ascii ''IL'')) = Inr a"
    by blast
  with first have again: "fst (City_get_or_create
          (run_calls (snd (City_get_or_create initial_state (ascii ''Springfield'') (ascii ''IL''))) ?between)
          (ascii ''Springfield'') (ascii ''IL'')) = Inr \<lparr>oid = 0, city = (ascii ''Springfield''), state = (ascii ''IL'')\<rparr>"
    by simp
  have len: "length (snd ?ds) = 2" by code_simp
  have same: "city (school_city (snd ?ds ! 0)) = city (school_city (snd ?ds ! 1)) \<and>
              state (school_city (snd ?ds ! 0)) = state (school_city (snd ?ds ! 1))"
    by code_simp
  from len have mem: "snd ?ds ! 0 \<in> set (snd ?ds)" "snd ?ds ! 1 \<in> set (snd ?ds)"
    by simp_all
  have "?ds = (fst ?ds, snd ?ds)" by simp
  with inst have "\<forall>x \<in> set (snd ?ds). \<forall>y \<in> set (snd ?ds).
         (city (school_city x) = city (school_city y) \<and>
          state (school_city x) = state (school_city y) \<longrightarrow> school_city x = school_city y)"
    by blast
  with mem same have "school_city (snd ?ds ! 0) = school_city (snd ?ds ! 1)" by blast
  with first again show ?thesis by blast
qed

lemma load_csv_tallies:
  "sum_list (map snd (School_locale_code_count (fst (load_csv pi pf (initial_state, []) lines))))
     = int (length (filter (\<lambda>x. locale_code x \<noteq> None) (snd (load_csv pi pf (initial_state, []) lines)))) \<and>
   sum_list (map snd (School_urban_code_count (fst (load_csv pi pf (initial_state, []) lines))))
     = int (length (filter (\<lambda>x. urban_code x \<noteq> None) (snd (load_csv pi pf (initial_state, []) lines)))) \<and>
   sum_list (map snd (School_status_code_count (fst (load_csv pi pf (initial_state, []) lines))))
     = int (length (filter (\<lambda>x. status_code x \<noteq> None) (snd (load_csv pi pf (initial_state, []) lines))))"
proof -
  let ?P = "\<lambda>ds.
     sum_list (map snd (School_locale_code_count (fst ds)))
       = int (length (filter (\<lambda>x. locale_code x \<noteq> None) (snd ds))) \<and>
     sum_list (map snd (School_urban_code_count (fst ds)))
       = int (length (filter (\<lambda>x. urban_code x \<noteq> None) (snd ds))) \<and>
     sum_list (map snd (School_status_code_count (fst ds)))
       = int (length (filter (\<lambda>x. status_code x \<noteq> None) (snd ds)))"
  have "?P (load_csv pi pf (initial_state, []) lines)"
  proof (rule load_csv_preserves[where P = ?P])
    show "?P (initial_state, [])" by (simp add: initial_state_def)
  next
    fix st schools line raised st' schools'
    assume inv: "?P (st, schools)"
      and r: "read_line pi pf (st, schools) line = (raised, st', schools')"
    from r show "?P (st', schools')"
    proof (cases rule: read_line_cases)
      case skipped
      with inv show ?thesis by simp
    next
      case (failed sid aid an nm c s la lo lc uc sc e)
      from School_init_error[OF failed(1)] inv failed(2) show ?thesis by simp
    next
      case (built sid aid an nm c s la lo lc uc sc sch)
      note t = School_init_tallies[OF built(1)]
      from inv built(2) show ?thesis
        by (simp add: t(4,5,6) sum_increment)
    qed
  qed
  then show ?thesis .
qed

text \<open>
  Claim C8. A School that is built has, in each of the three categories, the member whose
  value its raw code converts to, or none; the tally of the category gains exactly one
  under the name of that member, and is unchanged when there is none. Each tally is updated
  from the code of its own category only. After the records of a file have been loaded
  from the initial state, the counts of each tally add up to the number of schools of the
  dataset that have a classification in that category.
\<close>
theorem tallies_count_resolved_codes:
  "(School_init pi pf st sid aid an nm c s la lo lc uc sc = (Inr sch, st') \<longrightarrow>
      locale_code sch = (case pi lc of None \<Rightarrow> None | Some x \<Rightarrow> map_of LocaleCodes_members x) \<and>
      urban_code sch = (case pi uc of None \<Rightarrow> None | Some x \<Rightarrow> map_of UrbanLocaleCodes_members x) \<and>
      status_code sch = (case pi sc of None \<Rightarrow> None | Some x \<Rightarrow> map_of SchoolStatusCodes_members x) \<and>
      (\<forall>k. count_of (School_locale_code_count st') k
             = count_of (School_locale_code_count st) k
               + (if map_option LocaleCodes_name (locale_code sch) = Some k then 1 else 0)) \<and>
      (\<forall>k. count_of (School_urban_code_count st') k
             = count_of (School_urban_code_count st) k
               + (if map_option UrbanLocaleCodes_name (urban_code sch) = Some k then 1 else 0)) \<and>
      (\<forall>k. count_of (School_status_code_count st') k
             = count_of (School_status_code_count st) k
               + (if map_option SchoolStatusCodes_name (status_code sch) = Some k then 1 else 0)) \<and>
      (locale_code sch = None \<longrightarrow> School_locale_code_count st' = School_locale_code_count st) \<and>
      (urban_code sch = None \<longrightarrow> School_urban_code_count st' = School_urban_code_count st) \<and>
      (status_code sch = None \<longrightarrow> School_status_code_count st' = School_status_code_count st)) \<and>
   (load_csv pi pf (initial_state, []) lines = (st_end, schools) \<longrightarrow>
      sum_list (map snd (School_locale_code_count st_end))
        = int (length (filter (\<lambda>x. locale_code x \<noteq> None) schools)) \<and>
      sum_list (map snd (School_urban_code_count st_end))
        = int (length (filter (\<lambda>x. urban_code x \<noteq> None) schools)) \<and>
      sum_list (map snd (School_status_code_count st_end))
        = int (length (filter (\<lambda>x. status_code x \<noteq> None) schools)))"
proof (intro conjI impI allI)
  assume a: "School_init pi pf st sid aid an nm c s la lo lc uc sc = (Inr sch, st')"
  note t = School_init_tallies[OF a]
  show "locale_code sch = (case pi lc of None \<Rightarrow> None | Some x \<Rightarrow> map_of LocaleCodes_members x)"
    by (rule t(1))
  show "urban_code sch = (case pi uc of None \<Rightarrow> None | Some x \<Rightarrow> map_of UrbanLocaleCodes_members x)"
    by (rule t(2))
  show "status_code sch = (case pi sc of None \<Rightarrow> None | Some x \<Rightarrow> map_of SchoolStatusCodes_members x)"
    by (rule t(3))
  show "\<And>k. count_of (School_locale_code_count st') k
             = count_of (School_locale_code_count st) k
               + (if map_option LocaleCodes_name (locale_code sch) = Some k then 1 else 0)"
    by (simp only: t(4) count_of_increment)
  show "\<And>k. count_of (School_urban_code_count st') k
             = count_of (School_urban_code_count st) k
               + (if map_option UrbanLocaleCodes_name (urban_code sch) = Some k then 1 else 0)"
    by (simp only: t(5) count_of_increment)
  show "\<And>k. count_of (School_status_code_count st') k
             = count_of (School_status_code_count st) k
               + (if map_option SchoolStatusCodes_name (status_code sch) = Some k then 1 else 0)"
    by (simp only: t(6) count_of_increment)
  show "School_locale_code_count st' = School_locale_code_count st" if "locale_code sch = None"
    using that t(4) by (simp add: increment_count_metadata_def)
  show "School_urban_code_count st' = School_urban_code_count st" if "urban_code sch = None"
    using that t(5) by (simp add: increment_count_metadata_def)
  show "School_status_code_count st' = School_status_code_count st" if "status_code sch = None"
    using that t(6) by (simp add: increment_count_metadata_def)
next
  assume l: "load_csv pi pf (initial_state, []) lines = (st_end, schools)"
  from load_csv_tallies[of pi pf lines] l
  show "sum_list (map snd (School_locale_code_count st_end))
        = int (length (filter (\<lambda>x. locale_code x \<noteq> None) schools))"
    and "sum_list (map snd (School_urban_code_count st_end))
        = int (length (filter (\<lambda>x. urban_code x \<noteq> None) schools))"
    and "sum_list (map snd (School_status_code_count st_end))
        = int (length (filter (\<lambda>x. status_code x \<noteq> None) schools))"
    by simp_all
qed

theorem tallies_count_resolved_codes_witness:
  "School_locale_code_count (snd (School_init digits_to_int (\<lambda>v. None :: unit option)
       initial_state (ascii ''4'') (ascii ''A2'') (ascii ''District 2'') (ascii ''Jefferson'') (ascii ''Salem'') (ascii ''OR'') (ascii ''x'') (ascii ''y'')
       (ascii ''99'') (ascii ''abc'') (ascii ''2''))) = [] \<and>
   School_status_code_count (snd (School_init digits_to_int (\<lambda>v. None :: unit option)
       initial_state (ascii ''4'') (ascii ''A2'') (ascii ''District 2'') (ascii ''Jefferson'') (ascii ''Salem'') (ascii ''OR'') (ascii ''x'') (ascii ''y'')
       (ascii ''99'') (ascii ''abc'') (ascii ''2''))) = [(ascii ''CLOSED'', 1)] \<and>
   sum_list (map snd (School_locale_code_count (fst
     (load_csv digits_to_int (\<lambda>v. None :: unit option) (initial_state, [])
       [[ascii ''1'', ascii ''A1'', ascii ''District 1'', ascii ''Lincoln Elementary'', ascii ''Springfield'', ascii ''IL'',
         ascii ''39.8'', ascii ''-89.6'', ascii ''1'', ascii ''11'', ascii ''1''],
        [ascii ''2'', ascii ''A1'', ascii ''District 1'', ascii ''Springfield High'', ascii ''Springfield'', ascii ''IL'',
         ascii ''39.7'', ascii ''-89.7'', ascii ''3'', ascii ''13'', ascii ''1''],
        [ascii ''3'', ascii ''A2'', ascii ''District 2'', ascii ''Nowhere'', ascii ''Salem'', ascii ''Oregon'',
         ascii ''x'', ascii ''y'', ascii ''1'', ascii ''11'', ascii ''1''],
        [ascii ''4'', ascii ''A2'', ascii ''District 2'', ascii ''Jefferson'', ascii ''Salem'', ascii ''OR'',
         ascii ''x'', ascii ''y'', ascii ''99'', ascii ''abc'', ascii ''2'']])))) = 2"
proof -
  let ?pf = "\<lambda>v. None :: unit option"
  let ?X = "School_init digits_to_int ?pf initial_state (ascii ''4'') (ascii ''A2'') (ascii ''District 2'')
      (ascii ''Jefferson'') (ascii ''Salem'') (ascii ''OR'') (ascii ''x'') (ascii ''y'') (ascii ''99'') (ascii ''abc'') (ascii ''2'')"
  let ?rows = "[[ascii ''1'', ascii ''A1'', ascii ''District 1'', ascii ''Lincoln Elementary'', ascii ''Springfield'', ascii ''IL'',
         ascii ''39.8'', ascii ''-89.6'', ascii ''1'', ascii ''11'', ascii ''1''],
        [ascii ''2'', ascii ''A1'', ascii ''District 1'', ascii ''Springfield High'', ascii ''Springfield'', ascii ''IL'',
         ascii ''39.7'', ascii ''-89.7'', ascii ''3'', ascii ''13'', ascii ''1''],
        [ascii ''3'', ascii ''A2'', ascii ''District 2'', ascii ''Nowhere'', ascii ''Salem'', ascii ''Oregon'',
         ascii ''x'', ascii ''y'', ascii ''1'', ascii ''11'', ascii ''1''],
        [ascii ''4'', ascii ''A2'', ascii ''District 2'', ascii ''Jefferson'', ascii ''Salem'', ascii ''OR'',
         ascii ''x'', ascii ''y'', ascii ''99'', ascii ''abc'', ascii ''2'']]"
  let ?ds = "load_csv digits_to_int ?pf (initial_state, []) ?rows"
  note inst = tallies_count_resolved_codes[where pi = digits_to_int and pf = ?pf
      and st = initial_state and sid = "ascii ''4''" and aid = "ascii ''A2''" and an = "ascii ''District 2''"
      and nm = "ascii ''Jefferson''" and c = "ascii ''Salem''" and s = "ascii ''OR''" and la = "ascii ''x''"
      and lo = "ascii ''y''" and lc = "ascii ''99''" and uc = "ascii ''abc''" and sc = "ascii ''2''"
      and sch = "projr (fst ?X)" and st' = "snd ?X" and lines = ?rows
      and st_end = "fst ?ds" and schools = "snd ?ds"]
  have "\<not> isl (fst ?X)" by code_simp
  then have built: "?X = (Inr (projr (fst ?X)), snd ?X)"
    by (cases ?X; cases "fst ?X") simp_all
  have i99: "(case digits_to_int (ascii ''99'') of None \<Rightarrow> None | Some x \<Rightarrow> map_of LocaleCodes_members x) = None"
    by code_simp
  have i2: "(case digits_to_int (ascii ''2'') of None \<Rightarrow> None | Some x \<Rightarrow> map_of SchoolStatusCodes_members x)
      = Some CLOSED"
    by code_simp
  from inst built i99 have none: "locale_code (projr (fst ?X)) = None" by simp
  with inst built have "School_locale_code_count (snd ?X) = School_locale_code_count initial_state"
    by blast
  then have 1: "School_locale_code_count (snd ?X) = []" by (simp add: initial_state_def)
  from inst built i2 have "status_code (projr (fst ?X)) = Some CLOSED" by simp
  moreover from inst built
  have "\<forall>k. count_of (School_status_code_count (snd ?X)) k
          = count_of (School_status_code_count initial_state) k
            + (if map_option SchoolStatusCodes_name (status_code (projr (fst ?X))) = Some k
               then 1 else 0)" by blast
  ultimately have "count_of (School_status_code_count (snd ?X)) (ascii ''CLOSED'') = 1"
    by (simp add: initial_state_def count_of_def)
  moreover have "map fst (School_status_code_count (snd ?X)) = [ascii ''CLOSED'']" by code_simp
  ultimately have 2: "School_status_code_count (snd ?X) = [(ascii ''CLOSED'', 1)]"
    by (cases "School_status_code_count (snd ?X)") (auto simp: count_of_def)
  have "?ds = (fst ?ds, snd ?ds)" by simp
  with inst have "sum_list (map snd (School_locale_code_count (fst ?ds)))
        = int (length (filter (\<lambda>x. locale_code x \<noteq> None) (snd ?ds)))" by blast
  moreover have "length (filter (\<lambda>x. locale_code x \<noteq> None) (snd ?ds)) = 2" by code_simp
  ultimately have 3: "sum_list (map snd (School_locale_code_count (fst ?ds))) = 2" by simp
  from 1 2 3 show ?thesis by blast
qed

end
